theory Spec2Isabelle
  imports Complex_Main "HOL-Library.AList"
begin

section \<open>Python values shared by the modules\<close>

text \<open>
  A Python \<open>str\<close> is a \<open>string\<close>, one \<open>char\<close> for each character, so texts are
  taken from the 8-bit characters and \<open>len\<close> is \<open>length\<close>. Python's unbounded integers
  are \<open>int\<close>.

  Exceptions are values. \<open>ExternalError msg\<close> stands for an exception raised inside a
  collaborator (the PDF converter, the embedding service, the Cosmos DB vector search),
  with \<open>str(e) = msg\<close>. \<open>RetryError e\<close> is tenacity's wrapper around the exception
  of the last attempt.
\<close>

datatype exn =
    ValueError string
  | TypeError string
  | AttributeError string
  | ZeroDivisionError string
  | FileNotFoundError string
  | IndexError string
  | ExternalError string
  | RetryError exn

text \<open>
  A dictionary with string keys and string values, as the list of its items in insertion
  order. \<open>dict_set\<close> is \<open>d[k] = v\<close>, \<open>dict_update\<close> is \<open>d.update(other)\<close> (also
  \<open>{**d, **other}\<close>), \<open>dict_has\<close> is \<open>k in d\<close>, \<open>dict_get\<close> is \<open>d.get(k)\<close>.
\<close>

type_synonym metadata = "(string \<times> string) list"

definition dict_set :: "string \<Rightarrow> string \<Rightarrow> metadata \<Rightarrow> metadata" where
  "dict_set k v d = AList.update k v d"

definition dict_update :: "metadata \<Rightarrow> metadata \<Rightarrow> metadata" where
  "dict_update d other = fold (\<lambda>(k, v). dict_set k v) other d"

definition dict_get :: "metadata \<Rightarrow> string \<Rightarrow> string option" where
  "dict_get d k = map_of d k"

definition dict_has :: "string \<Rightarrow> metadata \<Rightarrow> bool" where
  "dict_has k d = (dict_get d k \<noteq> None)"

text \<open>\<open>langchain\<close>'s \<open>Document(page_content, metadata)\<close>.\<close>

record Document =
  page_content :: string
  metadata :: metadata

subsection \<open>\<open>str.lower\<close> and the \<open>in\<close> test on strings\<close>

text \<open>Characters are bytes here; \<open>lower\<close> maps the ASCII capitals and leaves the rest.\<close>

definition char_lower :: "char \<Rightarrow> char" where
  "char_lower c =
     (case map_of (zip ''ABCDEFGHIJKLMNOPQRSTUVWXYZ'' ''abcdefghijklmnopqrstuvwxyz'') c of
        Some l \<Rightarrow> l
      | None \<Rightarrow> c)"

definition lower :: "string \<Rightarrow> string" where
  "lower s = map char_lower s"

fun startswith :: "string \<Rightarrow> string \<Rightarrow> bool" where
  "startswith s [] = True"
| "startswith [] (p # ps) = False"
| "startswith (c # cs) (p # ps) = (c = p \<and> startswith cs ps)"

text \<open>\<open>str_in needle hay\<close> is Python's \<open>needle in hay\<close>.\<close>

fun str_in :: "string \<Rightarrow> string \<Rightarrow> bool" where
  "str_in needle [] = (needle = [])"
| "str_in needle (c # cs) = (startswith (c # cs) needle \<or> str_in needle cs)"

section \<open>\<open>src/db/cosmos_db.py\<close>: the vector store\<close>

record BatchConfig =
  batch_size :: int
  max_concurrency :: int

record VectorSearchConfig =
  num_lists :: int
  dimensions :: int
  m :: int
  ef_construction :: int

text \<open>
  A document handed to \<open>batch_add_documents\<close> is a \<open>str\<close> or a \<open>Document\<close>
  (\<open>List[Union[str, Document]]\<close>).
\<close>

datatype item = Text string | Doc Document

text \<open>
  The wrapped \<open>AzureCosmosDBVectorSearch\<close> object is external. Its state is the log of
  the requests that reached it: the arguments \<open>(num_lists, dimensions, m, ef_construction)\<close>
  of every \<open>create_index\<close> call, every batch passed to \<open>add_texts\<close> (with its
  metadata list) or to \<open>add_documents\<close>, and every search request. The floats
  \<open>score_threshold\<close> and \<open>lambda_mult\<close> of a search are left out of the log.
\<close>

datatype add_request =
    AddTexts "item list" "metadata list option"
  | AddDocuments "item list"

datatype SearchType = SIMILARITY | MMR | SIMILARITY_THRESHOLD

record search_request =
  sr_type :: SearchType
  sr_query :: string
  sr_k :: int
  sr_fetch_k :: "int option"
  sr_filter :: "metadata option"

record cosmos =
  create_index_calls :: "(int \<times> int \<times> int \<times> int) list"
  add_calls :: "add_request list"
  search_calls :: "search_request list"

text \<open>
  What the external service answers is a parameter: for a request arriving in a given
  state, either the message of the exception it raises or its result.
\<close>

record cosmos_api =
  create_index_answer :: "cosmos \<Rightarrow> string option"
  add_answer :: "cosmos \<Rightarrow> add_request \<Rightarrow> string + string list"
  search_answer :: "cosmos \<Rightarrow> search_request \<Rightarrow> string + Document list"

record VectorStore =
  index_name :: string
  config :: VectorSearchConfig
  batch_config :: BatchConfig
  index_created :: bool
  vector_store :: cosmos

text \<open>
  \<open>ensure_index_exists\<close>: nothing happens when \<open>_index_created\<close> is set; otherwise
  \<open>create_index\<close> is called, and an exception whose lower-cased message contains
  \<open>already exists\<close> is swallowed.
\<close>

definition ensure_index_exists :: "cosmos_api \<Rightarrow> VectorStore \<Rightarrow> (exn + unit) \<times> VectorStore" where
  "ensure_index_exists api self =
     (if \<not> index_created self then
        let db = vector_store self;
            db' = db\<lparr>create_index_calls := create_index_calls db @
                    [(num_lists (config self), dimensions (config self),
                      m (config self), ef_construction (config self))]\<rparr>
        in (case create_index_answer api db of
              None \<Rightarrow> (Inr (), self\<lparr>vector_store := db', index_created := True\<rparr>)
            | Some msg \<Rightarrow>
                if str_in ''already exists'' (lower msg)
                then (Inr (), self\<lparr>vector_store := db', index_created := True\<rparr>)
                else (Inl (ExternalError msg), self\<lparr>vector_store := db'\<rparr>))
      else (Inr (), self))"

subsection \<open>\<open>batch_add_documents\<close>\<close>

text \<open>
  \<open>[xs[i:i + n] for i in range(0, len(xs), n)]\<close>: \<open>range\<close> raises for the step 0 and is
  empty for a negative step.
\<close>

function slices :: "nat \<Rightarrow> 'a list \<Rightarrow> 'a list list" where
  "slices n xs = (if n = 0 \<or> xs = [] then [] else take n xs # slices n (drop n xs))"
  by pat_completeness auto
termination
  by (relation "measure (\<lambda>(n, xs). length xs)") auto

definition batches :: "int \<Rightarrow> 'a list \<Rightarrow> exn + 'a list list" where
  "batches n xs =
     (if n = 0 then Inl (ValueError ''range() arg 3 must not be zero'')
      else if n < 0 then Inr []
      else Inr (slices (nat n) xs))"

text \<open>
  \<open>process_batch\<close>: the first element decides between \<open>add_texts\<close>, which gets the
  batch with its metadata, and \<open>add_documents\<close>, which gets the batch alone; an exception
  of the service is logged and raised again. The request is in the service's log whatever
  the answer.
\<close>

definition batch_request :: "item \<Rightarrow> item list \<Rightarrow> metadata list option \<Rightarrow> add_request" where
  "batch_request first batch_docs batch_metadata =
     (case first of
        Text _ \<Rightarrow> AddTexts batch_docs batch_metadata
      | Doc _ \<Rightarrow> AddDocuments batch_docs)"

definition process_batch ::
    "cosmos_api \<Rightarrow> cosmos \<Rightarrow> item list \<Rightarrow> metadata list option \<Rightarrow> (exn + string list) \<times> cosmos" where
  "process_batch api db batch_docs batch_metadata =
     (case batch_docs of
        [] \<Rightarrow> (Inl (IndexError ''list index out of range''), db)
      | first # _ \<Rightarrow>
          (let req = batch_request first batch_docs batch_metadata;
               db' = db\<lparr>add_calls := add_calls db @ [req]\<rparr>
           in case add_answer api db req of
                Inl msg \<Rightarrow> (Inl (ExternalError msg), db')
              | Inr ids \<Rightarrow> (Inr ids, db')))"

text \<open>
  \<open>asyncio.gather\<close> over the batch tasks. No task awaits anything, so each runs to its
  end when it is started, in the order of the list; a task that raises does not stop the
  later ones, and \<open>gather\<close> raises the exception of the first task that failed.
\<close>

fun run_batches ::
    "cosmos_api \<Rightarrow> cosmos \<Rightarrow> (item list \<times> metadata list option) list \<Rightarrow>
     (exn + string list) list \<times> cosmos" where
  "run_batches api db [] = ([], db)"
| "run_batches api db ((batch_docs, batch_meta) # rest) =
     (let (r, db1) = process_batch api db batch_docs batch_meta;
          (rs, db2) = run_batches api db1 rest
      in (r # rs, db2))"

fun gather :: "(exn + 'a) list \<Rightarrow> exn + 'a list" where
  "gather [] = Inr []"
| "gather (Inl e # rs) = Inl e"
| "gather (Inr v # rs) = (case gather rs of Inl e \<Rightarrow> Inl e | Inr vs \<Rightarrow> Inr (v # vs))"

text \<open>
  \<open>NeverReturns\<close> is no exception: \<open>async with asyncio.Semaphore(0)\<close> waits for ever.
\<close>

datatype 'a outcome = Raises exn | NeverReturns | Returns 'a

definition batch_add_documents ::
    "cosmos_api \<Rightarrow> VectorStore \<Rightarrow> item list \<Rightarrow> metadata list option \<Rightarrow>
     string list outcome \<times> VectorStore" where
  "batch_add_documents api self documents metadatas =
     (case ensure_index_exists api self of
        (Inl e, self1) \<Rightarrow> (Raises e, self1)
      | (Inr _, self1) \<Rightarrow>
          (let n = batch_size (batch_config self1) in
           case batches n documents of
             Inl e \<Rightarrow> (Raises e, self1)
           | Inr doc_batches \<Rightarrow>
               (case (case metadatas of
                        None \<Rightarrow> Inr (replicate (length doc_batches) None)
                      | Some ms \<Rightarrow>
                          if ms = [] then Inr (replicate (length doc_batches) None)
                          else (case batches n ms of
                                  Inl e \<Rightarrow> Inl e
                                | Inr mbs \<Rightarrow> Inr (map Some mbs))) of
                  Inl e \<Rightarrow> (Raises e, self1)
                | Inr metadata_batches \<Rightarrow>
                    if max_concurrency (batch_config self1) < 0
                    then (Raises (ValueError ''Semaphore initial value must be >= 0''), self1)
                    else if max_concurrency (batch_config self1) = 0
                    then (NeverReturns, self1)
                    else (let (results, db') =
                                run_batches api (vector_store self1) (zip doc_batches metadata_batches)
                          in case gather results of
                               Inl e \<Rightarrow> (Raises e, self1\<lparr>vector_store := db'\<rparr>)
                             | Inr rs \<Rightarrow> (Returns (concat rs), self1\<lparr>vector_store := db'\<rparr>)))))"

subsection \<open>\<open>advanced_search\<close>\<close>

definition advanced_search ::
    "cosmos_api \<Rightarrow> VectorStore \<Rightarrow> string \<Rightarrow> SearchType \<Rightarrow> metadata option \<Rightarrow> int \<Rightarrow>
     (exn + Document list) \<times> VectorStore" where
  "advanced_search api self query search_type metadata_filter k =
     (case ensure_index_exists api self of
        (Inl e, self1) \<Rightarrow> (Inl e, self1)
      | (Inr _, self1) \<Rightarrow>
          (let req = \<lparr>sr_type = search_type, sr_query = query, sr_k = k,
                      sr_fetch_k = (if search_type = MMR then Some (min (k * 4) 100) else None),
                      sr_filter = metadata_filter\<rparr>;
               db = vector_store self1;
               db' = db\<lparr>search_calls := search_calls db @ [req]\<rparr>
           in case search_answer api db req of
                Inl msg \<Rightarrow> (Inl (ExternalError msg), self1\<lparr>vector_store := db'\<rparr>)
              | Inr docs \<Rightarrow> (Inr docs, self1\<lparr>vector_store := db'\<rparr>)))"

subsection \<open>Calling a method of the store by name\<close>

text \<open>
  A call \<open>store.name(args, kw = v, ...)\<close> looks the name up in the class, binds the
  arguments to the parameters, then runs the method. The values that travel through such
  a call:
\<close>

datatype pyval =
    PNone
  | PStr string
  | PInt int
  | PDict metadata
  | PList "pyval list"
  | PItems "item list"
  | PMetadatas "metadata list"
  | PDocuments "Document list"
  | PIds "string list"
  | PSearchType SearchType
  | PObject string

text \<open>
  The methods \<open>class VectorStore\<close> defines, each with its parameters after \<open>self\<close> and
  their defaults (\<open>None\<close> for a parameter without default), and the attributes
  \<open>__init__\<close> sets on an instance. The float defaults are written \<open>PObject\<close>.
\<close>

definition VectorStore_methods :: "(string \<times> (string \<times> pyval option) list) list" where
  "VectorStore_methods =
     [(''__init__'',
         [(''connection_string'', None), (''database_name'', None), (''collection_name'', None),
          (''embedding_model'', Some PNone), (''index_name'', Some (PStr ''vector-search-index'')),
          (''config'', Some PNone), (''batch_config'', Some PNone)]),
      (''_get_default_embeddings'', []),
      (''ensure_index_exists'', []),
      (''batch_add_documents'', [(''documents'', None), (''metadatas'', Some PNone)]),
      (''advanced_search'',
         [(''query'', None), (''search_type'', Some (PSearchType SIMILARITY)),
          (''metadata_filter'', Some PNone), (''k'', Some (PInt 4)),
          (''score_threshold'', Some (PObject ''0.0'')), (''mmr_lambda'', Some (PObject ''0.5''))])]"

definition VectorStore_fields :: "string list" where
  "VectorStore_fields =
     [''connection_string'', ''namespace'', ''index_name'', ''embedding_model'', ''config'',
      ''batch_config'', ''_index_created'', ''vector_store'']"

text \<open>
  The methods declared \<open>async def\<close>: calling one gives an awaitable. Every call of one in
  the code followed here is awaited at once, so \<open>VectorStore_run\<close> below runs the body at
  the call.
\<close>

definition VectorStore_async :: "string list" where
  "VectorStore_async = [''batch_add_documents'']"

text \<open>Binding positional and keyword arguments to the parameters of a method.\<close>

fun bind_keywords ::
    "string \<Rightarrow> string list \<Rightarrow> (string \<times> pyval) list \<Rightarrow> (string \<times> pyval) list \<Rightarrow>
     exn + (string \<times> pyval) list" where
  "bind_keywords f params bound [] = Inr bound"
| "bind_keywords f params bound ((k, v) # kws) =
     (if k \<notin> set params
      then Inl (TypeError (f @ ''() got an unexpected keyword argument '' @ k))
      else if map_of bound k \<noteq> None
      then Inl (TypeError (f @ ''() got multiple values for argument '' @ k))
      else bind_keywords f params (bound @ [(k, v)]) kws)"

fun fill_defaults ::
    "string \<Rightarrow> (string \<times> pyval option) list \<Rightarrow> (string \<times> pyval) list \<Rightarrow>
     exn + (string \<times> pyval) list" where
  "fill_defaults f [] bound = Inr []"
| "fill_defaults f ((p, dflt) # ps) bound =
     (case (case map_of bound p of
              Some v \<Rightarrow> Inr v
            | None \<Rightarrow> (case dflt of
                         Some v \<Rightarrow> Inr v
                       | None \<Rightarrow> Inl (TypeError (f @ ''() missing 1 required positional argument: '' @ p)))) of
        Inl e \<Rightarrow> Inl e
      | Inr v \<Rightarrow> (case fill_defaults f ps bound of
                    Inl e \<Rightarrow> Inl e
                  | Inr rest \<Rightarrow> Inr ((p, v) # rest)))"

definition bind_args ::
    "string \<Rightarrow> (string \<times> pyval option) list \<Rightarrow> pyval list \<Rightarrow> (string \<times> pyval) list \<Rightarrow>
     exn + (string \<times> pyval) list" where
  "bind_args f params args kwargs =
     (if length args > length params
      then Inl (TypeError (f @ ''() takes fewer positional arguments than were given''))
      else case bind_keywords f (map fst params) (zip (map fst params) args) kwargs of
             Inl e \<Rightarrow> Inl e
           | Inr bound \<Rightarrow> fill_defaults f params bound)"

text \<open>
  Running a method on its bound arguments. Arguments outside the annotated types are not
  followed into the external library: they give a \<open>TypeError\<close>. The constructor is
  reduced to what it does to the fields modelled here.
\<close>

definition arg :: "(string \<times> pyval) list \<Rightarrow> string \<Rightarrow> pyval" where
  "arg bound p = (case map_of bound p of Some v \<Rightarrow> v | None \<Rightarrow> PNone)"

definition VectorStore_run ::
    "cosmos_api \<Rightarrow> VectorStore \<Rightarrow> string \<Rightarrow> (string \<times> pyval) list \<Rightarrow>
     pyval outcome \<times> VectorStore" where
  "VectorStore_run api self name bound =
     (if name = ''ensure_index_exists'' then
        (case ensure_index_exists api self of
           (Inl e, self') \<Rightarrow> (Raises e, self')
         | (Inr _, self') \<Rightarrow> (Returns PNone, self'))
      else if name = ''batch_add_documents'' then
        (case (arg bound ''documents'', arg bound ''metadatas'') of
           (PItems documents, PNone) \<Rightarrow>
             (case batch_add_documents api self documents None of
                (Returns ids, self') \<Rightarrow> (Returns (PIds ids), self')
              | (Raises e, self') \<Rightarrow> (Raises e, self')
              | (NeverReturns, self') \<Rightarrow> (NeverReturns, self'))
         | (PItems documents, PMetadatas ms) \<Rightarrow>
             (case batch_add_documents api self documents (Some ms) of
                (Returns ids, self') \<Rightarrow> (Returns (PIds ids), self')
              | (Raises e, self') \<Rightarrow> (Raises e, self')
              | (NeverReturns, self') \<Rightarrow> (NeverReturns, self'))
         | _ \<Rightarrow> (Raises (TypeError ''batch_add_documents(): unsupported argument''), self))
      else if name = ''advanced_search'' then
        (case (arg bound ''query'', arg bound ''search_type'', arg bound ''metadata_filter'',
               arg bound ''k'') of
           (PStr query, PSearchType t, PNone, PInt k) \<Rightarrow>
             (case advanced_search api self query t None k of
                (Inl e, self') \<Rightarrow> (Raises e, self')
              | (Inr docs, self') \<Rightarrow> (Returns (PDocuments docs), self'))
         | (PStr query, PSearchType t, PDict f, PInt k) \<Rightarrow>
             (case advanced_search api self query t (Some f) k of
                (Inl e, self') \<Rightarrow> (Raises e, self')
              | (Inr docs, self') \<Rightarrow> (Returns (PDocuments docs), self'))
         | _ \<Rightarrow> (Raises (TypeError ''advanced_search(): unsupported argument''), self))
      else if name = ''_get_default_embeddings'' then (Returns (PObject ''OpenAIEmbeddings''), self)
      else (Returns PNone, self\<lparr>index_created := False\<rparr>))"

definition VectorStore_call ::
    "cosmos_api \<Rightarrow> VectorStore \<Rightarrow> string \<Rightarrow> pyval list \<Rightarrow> (string \<times> pyval) list \<Rightarrow>
     pyval outcome \<times> VectorStore" where
  "VectorStore_call api self name args kwargs =
     (case map_of VectorStore_methods name of
        None \<Rightarrow>
          if name \<in> set VectorStore_fields
          then (Raises (TypeError (name @ '' is not callable'')), self)
          else (Raises (AttributeError (''VectorStore object has no attribute '' @ name)), self)
      | Some params \<Rightarrow>
          (case bind_args name params args kwargs of
             Inl e \<Rightarrow> (Raises e, self)
           | Inr bound \<Rightarrow> VectorStore_run api self name bound))"

text \<open>\<open>await\<close> of the value a method call gave: only an \<open>async def\<close> gives an awaitable.\<close>

definition await_call :: "string \<Rightarrow> pyval \<Rightarrow> exn + pyval" where
  "await_call name v =
     (if name \<in> set VectorStore_async then Inr v
      else Inl (TypeError ''object can't be used in 'await' expression''))"

section \<open>\<open>src/document_processing/pdf_parser.py\<close>: batch conversion\<close>

subsection \<open>The file system\<close>

text \<open>
  A directory is the list of its files, each a name with its content, in the order
  \<open>glob\<close> lists them; the file system maps the paths of the existing directories to
  their content. \<open>path_join d n\<close> is \<open>d / n\<close>.
\<close>

type_synonym path = string

record file_system =
  dirs :: "(path \<times> (string \<times> string) list) list"

definition path_join :: "path \<Rightarrow> string \<Rightarrow> path" where
  "path_join d n = d @ ''/'' @ n"

definition dir_exists :: "file_system \<Rightarrow> path \<Rightarrow> bool" where
  "dir_exists fs d = (map_of (dirs fs) d \<noteq> None)"

definition listdir :: "file_system \<Rightarrow> path \<Rightarrow> (string \<times> string) list" where
  "listdir fs d = (case map_of (dirs fs) d of None \<Rightarrow> [] | Some es \<Rightarrow> es)"

definition set_dir :: "file_system \<Rightarrow> path \<Rightarrow> (string \<times> string) list \<Rightarrow> file_system" where
  "set_dir fs d es = fs\<lparr>dirs := AList.update d es (dirs fs)\<rparr>"

text \<open>\<open>mkdir(parents=True, exist_ok=True)\<close>.\<close>

definition mkdir :: "file_system \<Rightarrow> path \<Rightarrow> file_system" where
  "mkdir fs d = (if dir_exists fs d then fs else set_dir fs d [])"

definition file_exists :: "file_system \<Rightarrow> path \<Rightarrow> string \<Rightarrow> bool" where
  "file_exists fs d n = (map_of (listdir fs d) n \<noteq> None)"

definition unlink :: "file_system \<Rightarrow> path \<Rightarrow> string \<Rightarrow> file_system" where
  "unlink fs d n = set_dir fs d (filter (\<lambda>e. fst e \<noteq> n) (listdir fs d))"

definition write_text :: "file_system \<Rightarrow> path \<Rightarrow> string \<Rightarrow> string \<Rightarrow> file_system" where
  "write_text fs d n content = set_dir fs d (AList.update n content (listdir fs d))"

definition read_text :: "file_system \<Rightarrow> path \<Rightarrow> string \<Rightarrow> exn + string" where
  "read_text fs d n =
     (case map_of (listdir fs d) n of
        None \<Rightarrow> Inl (FileNotFoundError (path_join d n))
      | Some content \<Rightarrow> Inr content)"

text \<open>\<open>shutil.move\<close> of the file \<open>n\<close> of directory \<open>src\<close> to directory \<open>dst\<close>.\<close>

definition move :: "file_system \<Rightarrow> path \<Rightarrow> string \<Rightarrow> path \<Rightarrow> exn + file_system" where
  "move fs src n dst =
     (case map_of (listdir fs src) n of
        None \<Rightarrow> Inl (FileNotFoundError (path_join src n))
      | Some content \<Rightarrow> Inr (write_text (unlink fs src n) dst n content))"

definition endswith :: "string \<Rightarrow> string \<Rightarrow> bool" where
  "endswith s suffix = (length suffix \<le> length s \<and> drop (length s - length suffix) s = suffix)"

text \<open>\<open>d.glob("*.pdf")\<close>: the files of \<open>d\<close> whose name ends in \<open>.pdf\<close>.\<close>

definition glob_pdf :: "file_system \<Rightarrow> path \<Rightarrow> (string \<times> string) list" where
  "glob_pdf fs d = filter (\<lambda>e. endswith (fst e) ''.pdf'') (listdir fs d)"

text \<open>\<open>str.rfind\<close> of one character, and \<open>pathlib\<close>'s \<open>stem\<close> of a file name.\<close>

fun rfind :: "char \<Rightarrow> string \<Rightarrow> nat option" where
  "rfind c [] = None"
| "rfind c (x # xs) =
     (case rfind c xs of
        Some i \<Rightarrow> Some (Suc i)
      | None \<Rightarrow> if x = c then Some 0 else None)"

definition stem :: "string \<Rightarrow> string" where
  "stem name =
     (case rfind CHR ''.'' name of
        Some i \<Rightarrow> if 0 < i \<and> i + 1 < length name then take i name else name
      | None \<Rightarrow> name)"

subsection \<open>\<open>BatchPdfConverter\<close>\<close>

text \<open>
  The \<open>marker\<close> converter is external: \<open>convert_answer\<close> gives, for the path and the
  content of a PDF file, the message of the exception the conversion raises or the text
  it extracts.
\<close>

record pdf_api =
  convert_answer :: "path \<Rightarrow> string \<Rightarrow> string + string"

record BatchPdfConverter =
  base_dir :: path

definition tenant_input_dir :: "BatchPdfConverter \<Rightarrow> string \<Rightarrow> path" where
  "tenant_input_dir self tenant_id = path_join (path_join (base_dir self) ''policy_docs'') tenant_id"

definition tenant_output_dir :: "BatchPdfConverter \<Rightarrow> string \<Rightarrow> path" where
  "tenant_output_dir self tenant_id = path_join (path_join (base_dir self) ''processed_texts'') tenant_id"

definition setup_tenant_directories ::
    "BatchPdfConverter \<Rightarrow> file_system \<Rightarrow> string \<Rightarrow> (path \<times> path) \<times> file_system" where
  "setup_tenant_directories self fs tenant_id =
     (let input_dir = tenant_input_dir self tenant_id;
          output_dir = tenant_output_dir self tenant_id
      in ((input_dir, output_dir), mkdir (mkdir fs input_dir) output_dir))"

text \<open>The loop of \<open>move_files_to_tenant_directory\<close> over the files \<open>glob\<close> listed.\<close>

fun move_loop :: "path \<Rightarrow> path \<Rightarrow> string list \<Rightarrow> file_system \<Rightarrow> (exn + unit) \<times> file_system" where
  "move_loop temp_dir input_dir [] fs = (Inr (), fs)"
| "move_loop temp_dir input_dir (n # ns) fs =
     (let fs1 = (if file_exists fs input_dir n then unlink fs input_dir n else fs)
      in case move fs1 temp_dir n input_dir of
           Inl e \<Rightarrow> (Inl e, fs1)
         | Inr fs2 \<Rightarrow> move_loop temp_dir input_dir ns fs2)"

definition move_files_to_tenant_directory ::
    "BatchPdfConverter \<Rightarrow> file_system \<Rightarrow> path \<Rightarrow> string \<Rightarrow> (exn + unit) \<times> file_system" where
  "move_files_to_tenant_directory self fs temp_dir tenant_id =
     (let ((input_dir, _), fs1) = setup_tenant_directories self fs tenant_id
      in move_loop temp_dir input_dir (map fst (glob_pdf fs1 temp_dir)) fs1)"

definition get_pdf_files ::
    "BatchPdfConverter \<Rightarrow> file_system \<Rightarrow> string \<Rightarrow> (string \<times> string) list \<times> file_system" where
  "get_pdf_files self fs tenant_id =
     (let ((input_dir, _), fs1) = setup_tenant_directories self fs tenant_id
      in (glob_pdf fs1 input_dir, fs1))"

text \<open>
  \<open>convert_single_pdf\<close> returns the file's name with the success flag; an exception of the
  converter is caught and gives \<open>False\<close>.
\<close>

definition convert_single_pdf ::
    "pdf_api \<Rightarrow> BatchPdfConverter \<Rightarrow> file_system \<Rightarrow> string \<times> string \<Rightarrow> string \<Rightarrow>
     (string \<times> bool) \<times> file_system" where
  "convert_single_pdf api self fs pdf tenant_id =
     (let ((input_dir, output_dir), fs1) = setup_tenant_directories self fs tenant_id
      in case convert_answer api (path_join input_dir (fst pdf)) (snd pdf) of
           Inr txt \<Rightarrow> ((fst pdf, True), write_text fs1 output_dir (stem (fst pdf) @ ''.md'') txt)
         | Inl msg \<Rightarrow> ((fst pdf, False), fs1))"

record conversion_results =
  successful :: "string list"
  failed :: "string list"
  total :: int

fun convert_loop ::
    "pdf_api \<Rightarrow> BatchPdfConverter \<Rightarrow> string \<Rightarrow> (string \<times> string) list \<Rightarrow>
     conversion_results \<times> file_system \<Rightarrow> conversion_results \<times> file_system" where
  "convert_loop api self tenant_id [] (results, fs) = (results, fs)"
| "convert_loop api self tenant_id (pdf # pdfs) (results, fs) =
     (let ((name, success), fs1) = convert_single_pdf api self fs pdf tenant_id
      in convert_loop api self tenant_id pdfs
           (if success then results\<lparr>successful := successful results @ [name]\<rparr>
            else results\<lparr>failed := failed results @ [name]\<rparr>, fs1))"

text \<open>
  Lines 131 and 132: the uploads of an existing \<open>temp_dir\<close> are moved to the tenant's
  directory first.
\<close>

definition stage_uploads ::
    "BatchPdfConverter \<Rightarrow> file_system \<Rightarrow> string \<Rightarrow> path option \<Rightarrow> (exn + unit) \<times> file_system" where
  "stage_uploads self fs tenant_id temp_dir =
     (case temp_dir of
        None \<Rightarrow> (Inr (), fs)
      | Some d \<Rightarrow> if dir_exists fs d
                  then move_files_to_tenant_directory self fs d tenant_id
                  else (Inr (), fs))"

definition batch_convert_pdfs ::
    "pdf_api \<Rightarrow> BatchPdfConverter \<Rightarrow> file_system \<Rightarrow> string \<Rightarrow> path option \<Rightarrow>
     (exn + conversion_results) \<times> file_system" where
  "batch_convert_pdfs api self fs tenant_id temp_dir =
     (case stage_uploads self fs tenant_id temp_dir of
        (Inl e, fs1) \<Rightarrow> (Inl e, fs1)
      | (Inr _, fs1) \<Rightarrow>
          (let (pdf_files, fs2) = get_pdf_files self fs1 tenant_id
           in if pdf_files = []
              then (Inr \<lparr>successful = [], failed = [], total = 0\<rparr>, fs2)
              else (let (results, fs3) =
                          convert_loop api self tenant_id pdf_files
                            (\<lparr>successful = [], failed = [], total = int (length pdf_files)\<rparr>, fs2)
                    in (Inr results, fs3))))"

text \<open>Whether the converter extracts a text from a file of the tenant's directory.\<close>

definition converts :: "pdf_api \<Rightarrow> BatchPdfConverter \<Rightarrow> string \<Rightarrow> string \<times> string \<Rightarrow> bool" where
  "converts api self tenant_id pdf =
     (case convert_answer api (path_join (tenant_input_dir self tenant_id) (fst pdf)) (snd pdf) of
        Inr _ \<Rightarrow> True
      | Inl _ \<Rightarrow> False)"

section \<open>\<open>src/document_processing/text_splitter.py\<close>: the chunker\<close>

record Data =
  d_text :: string
  d_data :: metadata

definition to_lc_document :: "Data \<Rightarrow> Document" where
  "to_lc_document d = \<lparr>page_content = d_text d, metadata = d_data d\<rparr>"

record DocumentProcessor =
  chunk_size :: int
  chunk_overlap :: int
  separator :: string
  min_chunk_size :: int
  strip_whitespace :: bool
  cleanup_text :: bool
  data_inputs :: "Data list"
  status :: "Data list"

definition docs_to_data :: "Document list \<Rightarrow> Data list" where
  "docs_to_data docs = map (\<lambda>doc. \<lparr>d_text = page_content doc, d_data = metadata doc\<rparr>) docs"

subsection \<open>\<open>_clean_text\<close>\<close>

text \<open>
  The white space of \<open>\s\<close> and of \<open>str.strip\<close>, among the 8-bit characters: tab, line
  feed, vertical tab, form feed, carriage return, the four separators 0x1C to 0x1F, the
  space, the next-line character 0x85 and the no-break space 0xA0.
\<close>

definition is_space :: "char \<Rightarrow> bool" where
  "is_space c = (c \<in> set [CHR 0x09, CHR 0x0A, CHR 0x0B, CHR 0x0C, CHR 0x0D,
                          CHR 0x1C, CHR 0x1D, CHR 0x1E, CHR 0x1F, CHR 0x20,
                          CHR 0x85, CHR 0xA0])"

definition strip :: "string \<Rightarrow> string" where
  "strip s = rev (dropWhile is_space (rev (dropWhile is_space s)))"

text \<open>
  \<open>re.sub(r'\n\s*\n', '\n\n', text)\<close>: at a line feed, the longest run of white space
  that follows is cut back to its last line feed; the match is replaced by two line feeds.
\<close>

fun sub_blank_lines :: "string \<Rightarrow> string" where
  "sub_blank_lines [] = []"
| "sub_blank_lines (c # cs) =
     (if c = CHR 0x0A then
        (case rfind (CHR 0x0A) (takeWhile is_space cs) of
           Some i \<Rightarrow> CHR 0x0A # CHR 0x0A # sub_blank_lines (drop (Suc i) cs)
         | None \<Rightarrow> c # sub_blank_lines cs)
      else c # sub_blank_lines cs)"

text \<open>\<open>re.sub(r' +', ' ', text)\<close>.\<close>

function sub_spaces :: "string \<Rightarrow> string" where
  "sub_spaces [] = []"
| "sub_spaces (c # cs) =
     (if c = CHR 0x20 then CHR 0x20 # sub_spaces (dropWhile (\<lambda>x. x = CHR 0x20) cs)
      else c # sub_spaces cs)"
  by pat_completeness auto
termination
  by (relation "measure length") (auto simp: length_dropWhile_le less_Suc_eq_le)

text \<open>
  \<open>re.sub(r' *\n *', '\n', text)\<close>: a run of spaces (possibly empty) followed by a line
  feed and the spaces after it become one line feed; a run of spaces that no line feed
  follows stays.
\<close>

function sub_newline_spaces :: "string \<Rightarrow> string" where
  "sub_newline_spaces [] = []"
| "sub_newline_spaces (c # cs) =
     (case dropWhile (\<lambda>x. x = CHR 0x20) (c # cs) of
        [] \<Rightarrow> c # cs
      | x # rest \<Rightarrow>
          if x = CHR 0x0A then CHR 0x0A # sub_newline_spaces (dropWhile (\<lambda>x. x = CHR 0x20) rest)
          else takeWhile (\<lambda>x. x = CHR 0x20) (c # cs) @ x # sub_newline_spaces rest)"
  by pat_completeness auto
termination
proof (relation "measure length")
  show "wf (measure length)" by simp
next
  fix c :: char and cs x rest
  assume h: "dropWhile (\<lambda>x. x = CHR 0x20) (c # cs) = x # rest"
  have le: "length (x # rest) \<le> length (c # cs)"
    unfolding h [symmetric] by (rule length_dropWhile_le)
  have "length (dropWhile (\<lambda>x. x = CHR 0x20) rest) \<le> length rest"
    by (rule length_dropWhile_le)
  with le show "(dropWhile (\<lambda>x. x = CHR 0x20) rest, c # cs) \<in> measure length"
    by simp
  from le show "(rest, c # cs) \<in> measure length"
    by simp
qed

definition clean_text :: "DocumentProcessor \<Rightarrow> string \<Rightarrow> string" where
  "clean_text self txt =
     (if \<not> cleanup_text self then txt
      else let t1 = sub_blank_lines txt;
               t2 = sub_spaces t1;
               t3 = sub_newline_spaces t2
           in if strip_whitespace self then strip t3 else t3)"

subsection \<open>Adding input\<close>

text \<open>
  An element of the list given to \<open>add_documents\<close>: a dictionary that may or may not
  have the keys \<open>text\<close> and \<open>metadata\<close>.
\<close>

record doc_dict =
  dd_text :: "string option"
  dd_metadata :: "metadata option"

fun add_documents :: "DocumentProcessor \<Rightarrow> doc_dict list \<Rightarrow> (exn + unit) \<times> DocumentProcessor" where
  "add_documents self [] = (Inr (), self)"
| "add_documents self (doc # documents) =
     (case (dd_text doc, dd_metadata doc) of
        (Some txt, Some meta) \<Rightarrow>
          add_documents
            (self\<lparr>data_inputs := data_inputs self @ [\<lparr>d_text = clean_text self txt, d_data = meta\<rparr>]\<rparr>)
            documents
      | _ \<Rightarrow> (Inl (ValueError ''Documents must contain 'text' and 'metadata' keys''), self))"

definition add_texts ::
    "DocumentProcessor \<Rightarrow> string list \<Rightarrow> metadata list option \<Rightarrow> (exn + unit) \<times> DocumentProcessor" where
  "add_texts self texts meta =
     (let meta' = (case meta of None \<Rightarrow> map (\<lambda>_. []) texts | Some ms \<Rightarrow> ms)
      in if length texts \<noteq> length meta'
         then (Inl (ValueError ''Number of texts and metadata entries must match''), self)
         else (Inr (), self\<lparr>data_inputs := data_inputs self @
                 map (\<lambda>(t, m). \<lparr>d_text = clean_text self t, d_data = m\<rparr>) (zip texts meta')\<rparr>))"

subsection \<open>Splitting\<close>

text \<open>
  The splitter class is \<open>langchain\<close>'s, a parameter of the chunker: applied to
  \<open>chunk_overlap\<close>, \<open>chunk_size\<close>, \<open>separator\<close> and \<open>strip_whitespace\<close> it gives
  the exception its constructor raises, or the function that cuts one text into chunks
  (which may raise as well). \<open>split_documents\<close> is the library's loop over the
  documents: every chunk of a document carries that document's metadata.
\<close>

type_synonym text_splitter = "int \<Rightarrow> int \<Rightarrow> string \<Rightarrow> bool \<Rightarrow> exn + (string \<Rightarrow> exn + string list)"

fun split_documents :: "(string \<Rightarrow> exn + string list) \<Rightarrow> Document list \<Rightarrow> exn + Document list" where
  "split_documents splitter [] = Inr []"
| "split_documents splitter (d # ds) =
     (case splitter (page_content d) of
        Inl e \<Rightarrow> Inl e
      | Inr chunks \<Rightarrow>
          (case split_documents splitter ds of
             Inl e \<Rightarrow> Inl e
           | Inr rest \<Rightarrow> Inr (map (\<lambda>c. \<lparr>page_content = c, metadata = metadata d\<rparr>) chunks @ rest)))"

text \<open>
  \<open>html.unescape\<close> returns a string without \<open>&\<close> as it is; the replacement of the
  character references of any other string is the parameter \<open>charref_sub\<close>.
\<close>

definition unescape :: "(string \<Rightarrow> string) \<Rightarrow> string \<Rightarrow> string" where
  "unescape charref_sub s = (if CHR ''&'' \<notin> set s then s else charref_sub s)"

record text_api =
  charref_sub :: "string \<Rightarrow> string"
  text_splitter :: text_splitter

text \<open>Lines 109 and 119 to 125: the splitter built from the configuration.\<close>

definition make_splitter :: "text_api \<Rightarrow> DocumentProcessor \<Rightarrow> exn + (string \<Rightarrow> exn + string list)" where
  "make_splitter api self =
     text_splitter api (chunk_overlap self) (chunk_size self)
       (unescape (charref_sub api) (separator self)) (strip_whitespace self)"

definition split_text :: "text_api \<Rightarrow> DocumentProcessor \<Rightarrow> (exn + Data list) \<times> DocumentProcessor" where
  "split_text api self =
     (let documents = map to_lc_document (data_inputs self)
      in case make_splitter api self of
           Inl e \<Rightarrow> (Inl e, self)
         | Inr splitter \<Rightarrow>
             (case split_documents splitter documents of
                Inl e \<Rightarrow> (Inl e, self)
              | Inr docs \<Rightarrow>
                  (let docs' = filter (\<lambda>doc. int (length (page_content doc)) \<ge> min_chunk_size self) docs;
                       data = docs_to_data docs'
                   in (Inr data, self\<lparr>status := data\<rparr>))))"

subsection \<open>Status\<close>

text \<open>
  The dictionary \<open>get_status\<close> returns. Python's \<open>/\<close> yields a float; the model keeps
  the exact quotient, as a rational.
\<close>

record status_report =
  input_documents :: int
  output_chunks :: int
  average_chunk_size :: rat
  total_characters :: int

definition py_truediv :: "int \<Rightarrow> int \<Rightarrow> exn + rat" where
  "py_truediv a b = (if b = 0 then Inl (ZeroDivisionError ''division by zero'') else Inr (Fract a b))"

definition total_len :: "Data list \<Rightarrow> int" where
  "total_len ds = sum_list (map (\<lambda>d. int (length (d_text d))) ds)"

definition get_status :: "DocumentProcessor \<Rightarrow> exn + status_report" where
  "get_status self =
     (case (if status self \<noteq> []
            then py_truediv (total_len (status self)) (int (length (status self)))
            else Inr 0) of
        Inl e \<Rightarrow> Inl e
      | Inr avg \<Rightarrow>
          Inr \<lparr>input_documents = int (length (data_inputs self)),
               output_chunks = int (length (status self)),
               average_chunk_size = avg,
               total_characters = total_len (status self)\<rparr>)"

definition clear :: "DocumentProcessor \<Rightarrow> DocumentProcessor" where
  "clear self = self\<lparr>data_inputs := [], status := []\<rparr>"

section \<open>\<open>langchain\<close>'s \<open>CharacterTextSplitter\<close>\<close>

text \<open>
  The splitter \<open>split_text\<close> constructs is a class of the \<open>langchain\<close> library, not of
  the repository. What follows is the library's \<open>CharacterTextSplitter.split_text\<close> for a
  literal separator that is not kept: \<open>re.split\<close> on the separator, the empty pieces
  dropped (\<open>_split_text_with_regex\<close>), and the pieces merged greedily into chunks
  (\<open>_merge_splits\<close>, \<open>_join_docs\<close>). The merge loop in Python:
  \<^verbatim>\<open>
  for d in splits:
      _len = len(d)
      if total + _len + (separator_len if len(current_doc) > 0 else 0) > chunk_size:
          if len(current_doc) > 0:
              doc = join_docs(current_doc, separator)
              if doc is not None:
                  docs.append(doc)
              while total > chunk_overlap or (
                  total + _len + (separator_len if len(current_doc) > 0 else 0) > chunk_size
                  and total > 0
              ):
                  total -= len(current_doc[0]) + (separator_len if len(current_doc) > 1 else 0)
                  current_doc = current_doc[1:]
      current_doc.append(d)
      total += _len + (separator_len if len(current_doc) > 1 else 0)
  doc = join_docs(current_doc, separator)
  if doc is not None:
      docs.append(doc)
  \<close>
  A piece longer than \<open>chunk_size\<close> is never cut: it becomes a chunk as it is. The
  constructor refuses an overlap larger than the chunk size.
\<close>

function re_split :: "string \<Rightarrow> string \<Rightarrow> string \<Rightarrow> string list" where
  "re_split sep acc [] = [rev acc]"
| "re_split sep acc (c # cs) =
     (if sep \<noteq> [] \<and> startswith (c # cs) sep
      then rev acc # re_split sep [] (drop (length sep) (c # cs))
      else re_split sep (c # acc) cs)"
  by pat_completeness auto
termination
  by (relation "measure (\<lambda>(sep, acc, s). length s)") auto

definition split_text_with_regex :: "string \<Rightarrow> string \<Rightarrow> string list" where
  "split_text_with_regex txt sep =
     filter (\<lambda>s. s \<noteq> [])
       (if sep \<noteq> [] then re_split sep [] txt else map (\<lambda>c. [c]) txt)"

definition str_join :: "string \<Rightarrow> string list \<Rightarrow> string" where
  "str_join sep xs = (case xs of [] \<Rightarrow> [] | y # ys \<Rightarrow> y @ concat (map (\<lambda>z. sep @ z) ys))"

definition join_docs :: "bool \<Rightarrow> string list \<Rightarrow> string \<Rightarrow> string option" where
  "join_docs strip_ws docs sep =
     (let t = str_join sep docs;
          t' = (if strip_ws then strip t else t)
      in if t' = [] then None else Some t')"

text \<open>
  The inner loop of \<open>_merge_splits\<close>: pieces are popped off the front of the current
  chunk while it is longer than the overlap, or too long to take the next piece of
  length \<open>len\<close>. \<open>current_doc[0]\<close> of an empty list raises.
\<close>

fun pop_front :: "int \<Rightarrow> int \<Rightarrow> int \<Rightarrow> int \<Rightarrow> string list \<Rightarrow> int \<Rightarrow> exn + string list \<times> int" where
  "pop_front csize overlap sep_len len current_doc tot =
     (if tot > overlap \<or>
         (tot + len + (if length current_doc > 0 then sep_len else 0) > csize \<and> tot > 0)
      then (case current_doc of
              [] \<Rightarrow> Inl (IndexError ''list index out of range'')
            | d # ds \<Rightarrow>
                pop_front csize overlap sep_len len ds
                  (tot - (int (length d) + (if length current_doc > 1 then sep_len else 0))))
      else Inr (current_doc, tot))"

text \<open>
  One round of the loop of \<open>_merge_splits\<close>, for the piece \<open>d\<close>: the state is the
  chunks made so far, the pieces of the current chunk and their joined length.
\<close>

definition merge_step ::
    "int \<Rightarrow> int \<Rightarrow> bool \<Rightarrow> string \<Rightarrow> string \<Rightarrow> string list \<times> string list \<times> int \<Rightarrow>
     exn + string list \<times> string list \<times> int" where
  "merge_step csize overlap strip_ws sep d st =
     (case st of (docs, current_doc, tot) \<Rightarrow>
        let len = int (length d);
            sep_len = int (length sep)
        in case (if tot + len + (if length current_doc > 0 then sep_len else 0) > csize
                    \<and> length current_doc > 0
                 then (case pop_front csize overlap sep_len len current_doc tot of
                         Inl e \<Rightarrow> Inl e
                       | Inr (current_doc', tot') \<Rightarrow>
                           Inr (case join_docs strip_ws current_doc sep of
                                  None \<Rightarrow> docs
                                | Some doc \<Rightarrow> docs @ [doc], current_doc', tot'))
                 else Inr (docs, current_doc, tot)) of
             Inl e \<Rightarrow> Inl e
           | Inr (docs1, current_doc1, tot1) \<Rightarrow>
               Inr (docs1, current_doc1 @ [d],
                    tot1 + len + (if length (current_doc1 @ [d]) > 1 then sep_len else 0)))"

fun merge_loop ::
    "int \<Rightarrow> int \<Rightarrow> bool \<Rightarrow> string \<Rightarrow> string list \<Rightarrow> string list \<times> string list \<times> int \<Rightarrow>
     exn + string list \<times> string list \<times> int" where
  "merge_loop csize overlap strip_ws sep [] st = Inr st"
| "merge_loop csize overlap strip_ws sep (d # splits) st =
     (case merge_step csize overlap strip_ws sep d st of
        Inl e \<Rightarrow> Inl e
      | Inr st' \<Rightarrow> merge_loop csize overlap strip_ws sep splits st')"

definition merge_splits ::
    "int \<Rightarrow> int \<Rightarrow> bool \<Rightarrow> string list \<Rightarrow> string \<Rightarrow> exn + string list" where
  "merge_splits csize overlap strip_ws splits sep =
     (case merge_loop csize overlap strip_ws sep splits ([], [], 0) of
        Inl e \<Rightarrow> Inl e
      | Inr (docs, current_doc, tot) \<Rightarrow>
          Inr (case join_docs strip_ws current_doc sep of
                 None \<Rightarrow> docs
               | Some doc \<Rightarrow> docs @ [doc]))"

definition CharacterTextSplitter :: text_splitter where
  "CharacterTextSplitter overlap csize sep strip_ws =
     (if overlap > csize
      then Inl (ValueError ''Got a larger chunk overlap than chunk size, should be smaller.'')
      else Inr (\<lambda>txt. merge_splits csize overlap strip_ws (split_text_with_regex txt sep) sep))"

text \<open>The length of \<open>sep.join(xs)\<close>.\<close>

definition joined_length :: "string \<Rightarrow> string list \<Rightarrow> nat" where
  "joined_length sep xs = sum_list (map length xs) + (length xs - 1) * length sep"

section \<open>\<open>src/pipeline.py\<close>: the document pipeline\<close>

record DocumentPipeline =
  pdf_converter :: BatchPdfConverter
  doc_processor :: DocumentProcessor
  pipeline_vector_store :: VectorStore

text \<open>The external services one run of the pipeline talks to.\<close>

record services =
  pdf_service :: pdf_api
  text_service :: text_api
  cosmos_service :: cosmos_api

subsection \<open>\<open>search_documents\<close>\<close>

text \<open>
  Lines 178 to 180: the filter starts as \<open>{"tenant_id": tenant_id}\<close> and is updated with
  the caller's criteria when these are given and not empty.
\<close>

definition search_filter :: "string \<Rightarrow> metadata option \<Rightarrow> metadata" where
  "search_filter tenant_id filter_criteria =
     (let base_filter = [(''tenant_id'', tenant_id)]
      in case filter_criteria of
           None \<Rightarrow> base_filter
         | Some criteria \<Rightarrow> if criteria \<noteq> [] then dict_update base_filter criteria else base_filter)"

text \<open>An entry of the list \<open>search_documents\<close> is to return; the score is a float.\<close>

record search_hit =
  content :: string
  hit_metadata :: metadata
  similarity_score :: rat

text \<open>
  \<open>for doc, score in results\<close> unpacks every result into two names, and a \<open>Document\<close>
  iterates over more than two fields.
\<close>

definition format_results :: "pyval \<Rightarrow> exn + search_hit list" where
  "format_results results =
     (case results of
        PDocuments [] \<Rightarrow> Inr []
      | PDocuments (doc # docs) \<Rightarrow> Inl (ValueError ''too many values to unpack (expected 2)'')
      | _ \<Rightarrow> Inl (TypeError ''object is not iterable''))"

definition search_documents ::
    "cosmos_api \<Rightarrow> DocumentPipeline \<Rightarrow> string \<Rightarrow> string \<Rightarrow> metadata option \<Rightarrow> int \<Rightarrow>
     search_hit list outcome \<times> DocumentPipeline" where
  "search_documents api self query tenant_id filter_criteria k =
     (let base_filter = search_filter tenant_id filter_criteria
      in case VectorStore_call api (pipeline_vector_store self) ''create_metadata_filter''
                [PList [PDict base_filter]] [] of
           (Raises e, vs) \<Rightarrow> (Raises e, self\<lparr>pipeline_vector_store := vs\<rparr>)
         | (NeverReturns, vs) \<Rightarrow> (NeverReturns, self\<lparr>pipeline_vector_store := vs\<rparr>)
         | (Returns metadata_filter, vs) \<Rightarrow>
             (case VectorStore_call api vs ''advanced_search'' []
                     [(''query'', PStr query), (''k'', PInt k), (''filter'', metadata_filter)] of
                (Raises e, vs') \<Rightarrow> (Raises e, self\<lparr>pipeline_vector_store := vs'\<rparr>)
              | (NeverReturns, vs') \<Rightarrow> (NeverReturns, self\<lparr>pipeline_vector_store := vs'\<rparr>)
              | (Returns v, vs') \<Rightarrow>
                  (case await_call ''advanced_search'' v of
                     Inl e \<Rightarrow> (Raises e, self\<lparr>pipeline_vector_store := vs'\<rparr>)
                   | Inr results \<Rightarrow>
                       (case format_results results of
                          Inl e \<Rightarrow> (Raises e, self\<lparr>pipeline_vector_store := vs'\<rparr>)
                        | Inr formatted \<Rightarrow>
                            (Returns formatted, self\<lparr>pipeline_vector_store := vs'\<rparr>)))))"

subsection \<open>The body of \<open>process_pdfs\<close>\<close>

text \<open>\<open>{"tenant_id": tenant_id, **(additional_metadata or {})}\<close>.\<close>

definition base_metadata_of :: "string \<Rightarrow> metadata option \<Rightarrow> metadata" where
  "base_metadata_of tenant_id additional_metadata =
     dict_update [(''tenant_id'', tenant_id)]
       (case additional_metadata of None \<Rightarrow> [] | Some extra \<Rightarrow> extra)"

text \<open>Step 2: the converted text of every successful file, with its metadata.\<close>

fun load_documents ::
    "file_system \<Rightarrow> path \<Rightarrow> metadata \<Rightarrow> string list \<Rightarrow> exn + doc_dict list" where
  "load_documents fs output_dir base_metadata [] = Inr []"
| "load_documents fs output_dir base_metadata (filename # rest) =
     (case read_text fs output_dir (stem filename @ ''.md'') of
        Inl e \<Rightarrow> Inl e
      | Inr txt \<Rightarrow>
          (case load_documents fs output_dir base_metadata rest of
             Inl e \<Rightarrow> Inl e
           | Inr documents \<Rightarrow>
               Inr (\<lparr>dd_text = Some txt,
                     dd_metadata = Some
                       (dict_update base_metadata
                          [(''source'', filename), (''type'', ''pdf''),
                           (''original_path'', path_join output_dir (stem filename @ ''.md''))])\<rparr>
                    # documents)))"

text \<open>
  Step 4: every chunk as a \<open>Document\<close> whose metadata is updated with the base metadata.
  Where the \<open>Document\<close> shares its dictionary with the chunk, the chunk kept in
  \<open>status\<close> is updated too; nothing followed here reads the metadata there.
\<close>

definition langchain_docs :: "metadata \<Rightarrow> Data list \<Rightarrow> Document list" where
  "langchain_docs base_metadata chunks =
     map (\<lambda>chunk. let doc = to_lc_document chunk
                   in doc\<lparr>metadata := dict_update (metadata doc) base_metadata\<rparr>) chunks"

record processing_result =
  r_tenant_id :: string
  pdfs_processed :: int
  pdfs_failed :: int
  failed_files :: "string list"
  chunks_created :: int
  documents_stored :: int
  processing_stats :: status_report

text \<open>
  Steps 3 to 6, from the documents loaded: chunk, tag, store, report. The state is the
  pipeline with the file system.
\<close>

definition chunk_and_store ::
    "services \<Rightarrow> DocumentPipeline \<Rightarrow> metadata \<Rightarrow> doc_dict list \<Rightarrow>
     (Data list \<times> status_report) outcome \<times> DocumentPipeline" where
  "chunk_and_store api self base_metadata documents =
     (case add_documents (clear (doc_processor self)) documents of
        (Inl e, dp) \<Rightarrow> (Raises e, self\<lparr>doc_processor := dp\<rparr>)
      | (Inr _, dp) \<Rightarrow>
          (case split_text (text_service api) dp of
             (Inl e, dp1) \<Rightarrow> (Raises e, self\<lparr>doc_processor := dp1\<rparr>)
           | (Inr chunks, dp1) \<Rightarrow>
               (case batch_add_documents (cosmos_service api) (pipeline_vector_store self)
                       (map Doc (langchain_docs base_metadata chunks)) None of
                  (Raises e, vs) \<Rightarrow>
                    (Raises e, self\<lparr>doc_processor := dp1, pipeline_vector_store := vs\<rparr>)
                | (NeverReturns, vs) \<Rightarrow>
                    (NeverReturns, self\<lparr>doc_processor := dp1, pipeline_vector_store := vs\<rparr>)
                | (Returns ids, vs) \<Rightarrow>
                    (case get_status dp1 of
                       Inl e \<Rightarrow> (Raises e, self\<lparr>doc_processor := dp1, pipeline_vector_store := vs\<rparr>)
                     | Inr st \<Rightarrow>
                         (Returns (chunks, st),
                          self\<lparr>doc_processor := dp1, pipeline_vector_store := vs\<rparr>)))))"

definition process_pdfs_body ::
    "services \<Rightarrow> DocumentPipeline \<times> file_system \<Rightarrow> string \<Rightarrow> path option \<Rightarrow> metadata option \<Rightarrow>
     processing_result outcome \<times> (DocumentPipeline \<times> file_system)" where
  "process_pdfs_body api st tenant_id input_dir additional_metadata =
     (case st of (self, fs) \<Rightarrow>
        let base_metadata = base_metadata_of tenant_id additional_metadata
        in case batch_convert_pdfs (pdf_service api) (pdf_converter self) fs tenant_id input_dir of
             (Inl e, fs1) \<Rightarrow> (Raises e, (self, fs1))
           | (Inr conversion_results, fs1) \<Rightarrow>
               if successful conversion_results = []
               then (Raises (ValueError ''No PDFs were successfully converted''), (self, fs1))
               else (case load_documents fs1 (tenant_output_dir (pdf_converter self) tenant_id)
                            base_metadata (successful conversion_results) of
                       Inl e \<Rightarrow> (Raises e, (self, fs1))
                     | Inr documents \<Rightarrow>
                         (case chunk_and_store api self base_metadata documents of
                            (Raises e, self') \<Rightarrow> (Raises e, (self', fs1))
                          | (NeverReturns, self') \<Rightarrow> (NeverReturns, (self', fs1))
                          | (Returns (chunks, stats), self') \<Rightarrow>
                              (Returns
                                 \<lparr>r_tenant_id = tenant_id,
                                  pdfs_processed = int (length (successful conversion_results)),
                                  pdfs_failed = int (length (failed conversion_results)),
                                  failed_files = failed conversion_results,
                                  chunks_created = int (length chunks),
                                  documents_stored = int (length chunks),
                                  processing_stats = stats\<rparr>,
                               (self', fs1)))))"

subsection \<open>The retry decorator of \<open>process_pdfs\<close>\<close>

text \<open>
  \<open>tenacity\<close>'s \<open>wait_exponential(multiplier, min, max)\<close> after the attempt \<open>n\<close>, in
  seconds, and \<open>stop_after_attempt\<close>.
\<close>

definition wait_exponential :: "int \<Rightarrow> int \<Rightarrow> int \<Rightarrow> nat \<Rightarrow> int" where
  "wait_exponential multiplier wmin wmax n =
     max (max 0 wmin) (min (multiplier * 2 ^ (n - 1)) wmax)"

definition stop_after_attempt :: "nat \<Rightarrow> nat \<Rightarrow> bool" where
  "stop_after_attempt max_attempt_number n = (n \<ge> max_attempt_number)"

text \<open>
  The loop of \<open>AsyncRetrying.__call__\<close> from the attempt \<open>n\<close> on: the body of the attempt
  \<open>n\<close> runs on the state its predecessor left; a result is returned; after an exception
  the loop stops with \<open>RetryError\<close> when \<open>stop\<close> says so, and sleeps then tries again
  otherwise. The sleeps are collected, in seconds.
\<close>

function retrying ::
    "nat \<Rightarrow> (nat \<Rightarrow> int) \<Rightarrow> (nat \<Rightarrow> 's \<Rightarrow> 'a outcome \<times> 's) \<Rightarrow> nat \<Rightarrow> 's \<times> int list \<Rightarrow>
     'a outcome \<times> ('s \<times> int list)" where
  "retrying max_attempt wait body n (s, sleeps) =
     (case body n s of
        (Returns v, s') \<Rightarrow> (Returns v, (s', sleeps))
      | (NeverReturns, s') \<Rightarrow> (NeverReturns, (s', sleeps))
      | (Raises e, s') \<Rightarrow>
          if stop_after_attempt max_attempt n then (Raises (RetryError e), (s', sleeps))
          else retrying max_attempt wait body (Suc n) (s', sleeps @ [wait n]))"
  by pat_completeness auto
termination
  by (relation "measure (\<lambda>(max_attempt, wait, body, n, st). max_attempt - n)")
     (auto simp: stop_after_attempt_def)

text \<open>
  \<open>@retry(stop=stop_after_attempt(3), wait=wait_exponential(multiplier=1, min=4, max=10))\<close>
  around the body; \<open>api n\<close> is what the external services answer during the attempt \<open>n\<close>.
\<close>

definition process_pdfs ::
    "(nat \<Rightarrow> services) \<Rightarrow> DocumentPipeline \<times> file_system \<Rightarrow> string \<Rightarrow> path option \<Rightarrow>
     metadata option \<Rightarrow> processing_result outcome \<times> ((DocumentPipeline \<times> file_system) \<times> int list)" where
  "process_pdfs api st tenant_id input_dir additional_metadata =
     retrying 3 (wait_exponential 1 4 10)
       (\<lambda>n st'. process_pdfs_body (api n) st' tenant_id input_dir additional_metadata)
       1 (st, [])"

subsection \<open>\<open>add_texts\<close>\<close>

text \<open>Lines 235 to 241: a chunk without \<open>tenant_id\<close> gets the tenant's.\<close>

definition add_texts_docs :: "string \<Rightarrow> Data list \<Rightarrow> Document list" where
  "add_texts_docs tenant_id chunks =
     map (\<lambda>chunk. let doc = to_lc_document chunk
                   in if \<not> dict_has ''tenant_id'' (metadata doc)
                      then doc\<lparr>metadata := dict_set ''tenant_id'' tenant_id (metadata doc)\<rparr>
                      else doc) chunks"

subsection \<open>What a request carries\<close>

text \<open>
  The items of a write request, and whether an item is a document whose metadata has the
  key \<open>tenant_id\<close>.
\<close>

definition request_items :: "add_request \<Rightarrow> item list" where
  "request_items r = (case r of AddTexts xs _ \<Rightarrow> xs | AddDocuments xs \<Rightarrow> xs)"

definition has_tenant :: "item \<Rightarrow> bool" where
  "has_tenant i = (case i of Doc d \<Rightarrow> dict_has ''tenant_id'' (metadata d) | Text _ \<Rightarrow> False)"

section \<open>Example inputs\<close>

text \<open>A fresh vector store with the default configuration, and three index services.\<close>

definition store0 :: VectorStore where
  "store0 =
     \<lparr>index_name = ''vector-search-index'',
      config = \<lparr>num_lists = 100, dimensions = 1536, m = 16, ef_construction = 64\<rparr>,
      batch_config = \<lparr>batch_size = 100, max_concurrency = 4\<rparr>,
      index_created = False,
      vector_store = \<lparr>create_index_calls = [], add_calls = [], search_calls = []\<rparr>\<rparr>"

definition api_ok :: cosmos_api where
  "api_ok =
     \<lparr>create_index_answer = (\<lambda>_. None),
      add_answer = (\<lambda>_ r. Inr (case r of AddTexts ts _ \<Rightarrow> map (\<lambda>_. ''id'') ts
                                        | AddDocuments ds \<Rightarrow> map (\<lambda>_. ''id'') ds)),
      search_answer = (\<lambda>_ _. Inr [])\<rparr>"

definition api_exists :: cosmos_api where
  "api_exists = api_ok\<lparr>create_index_answer := (\<lambda>_. Some ''Index Already Exists'')\<rparr>"

definition api_down :: cosmos_api where
  "api_down =
     \<lparr>create_index_answer = (\<lambda>_. Some ''connection refused''),
      add_answer = (\<lambda>_ _. Inl ''connection refused''),
      search_answer = (\<lambda>_ _. Inl ''connection refused'')\<rparr>"

text \<open>
  A tenant directory with two good PDF files, a broken one and a file that is no PDF; a
  converter that fails on the broken file.
\<close>

definition converter0 :: BatchPdfConverter where
  "converter0 = \<lparr>base_dir = ''/app''\<rparr>"

definition fs_acme :: file_system where
  "fs_acme =
     \<lparr>dirs = [(''/app/policy_docs/acme'',
                 [(''a.pdf'', ''pdf-a''), (''b.pdf'', ''broken''), (''c.pdf'', ''pdf-c''),
                  (''notes.txt'', ''no pdf'')])]\<rparr>"

definition policy_text :: string where
  "policy_text = ''Travel  policy \<newline>\<newline>\<newline>Flights are booked in economy class.\<newline>\<newline>Hotels are booked by the travel desk.''"

definition pdf_api0 :: pdf_api where
  "pdf_api0 =
     \<lparr>convert_answer = (\<lambda>p pdfbytes. if pdfbytes = ''broken'' then Inl ''corrupt file''
                                      else Inr policy_text)\<rparr>"

text \<open>
  A pipeline with small chunks and batches of two, the services that answer every request,
  and a document without \<open>tenant_id\<close>.
\<close>

definition processor0 :: DocumentProcessor where
  "processor0 =
     \<lparr>chunk_size = 40, chunk_overlap = 10, separator = ''\<newline>\<newline>'', min_chunk_size = 5,
      strip_whitespace = True, cleanup_text = True, data_inputs = [], status = []\<rparr>"

definition text_api0 :: text_api where
  "text_api0 = \<lparr>charref_sub = (\<lambda>s. s), text_splitter = CharacterTextSplitter\<rparr>"

definition pipeline0 :: DocumentPipeline where
  "pipeline0 =
     \<lparr>pdf_converter = converter0, doc_processor = processor0,
      pipeline_vector_store = store0\<lparr>batch_config := \<lparr>batch_size = 2, max_concurrency = 4\<rparr>\<rparr>\<rparr>"

definition services0 :: services where
  "services0 = \<lparr>pdf_service = pdf_api0, text_service = text_api0, cosmos_service = api_ok\<rparr>"

definition untagged :: Document where
  "untagged = \<lparr>page_content = ''untagged chunk'', metadata = [(''source'', ''a.pdf'')]\<rparr>"

text \<open>
  Services whose index refuses every write during the first two attempts, services whose
  index refuses every write, and the states the attempts of a run leave behind.
\<close>

definition api_write_down :: cosmos_api where
  "api_write_down = api_ok\<lparr>add_answer := (\<lambda>_ _. Inl ''embedding service unavailable'')\<rparr>"

definition services_flaky :: "nat \<Rightarrow> services" where
  "services_flaky n = services0\<lparr>cosmos_service := (if n < 3 then api_write_down else api_ok)\<rparr>"

definition services_down :: "nat \<Rightarrow> services" where
  "services_down n = services0\<lparr>cosmos_service := api_write_down\<rparr>"

definition acme1 :: "DocumentPipeline \<times> file_system" where
  "acme1 = snd (process_pdfs_body (services_flaky 1) (pipeline0, fs_acme) ''acme'' None None)"

definition acme2 :: "DocumentPipeline \<times> file_system" where
  "acme2 = snd (process_pdfs_body (services_flaky 2) acme1 ''acme'' None None)"

definition acme3 :: "DocumentPipeline \<times> file_system" where
  "acme3 = snd (process_pdfs_body (services_flaky 3) acme2 ''acme'' None None)"

definition fs_nobody :: file_system where
  "fs_nobody = snd (batch_convert_pdfs pdf_api0 converter0 fs_acme ''nobody'' None)"

definition down1 :: "DocumentPipeline \<times> file_system" where
  "down1 = snd (process_pdfs_body (services_down 1) (pipeline0, fs_acme) ''acme'' None None)"

definition down2 :: "DocumentPipeline \<times> file_system" where
  "down2 = snd (process_pdfs_body (services_down 2) down1 ''acme'' None None)"

definition down3 :: "DocumentPipeline \<times> file_system" where
  "down3 = snd (process_pdfs_body (services_down 3) down2 ''acme'' None None)"

text \<open>A chunker holding a short document between two longer ones.\<close>

definition short_doc :: Data where
  "short_doc = \<lparr>d_text = ''short'', d_data = [(''tenant_id'', ''x'')]\<rparr>"

definition long_doc :: Data where
  "long_doc = \<lparr>d_text = ''The travel desk books every flight in economy class.'',
                d_data = [(''tenant_id'', ''x'')]\<rparr>"

definition processor1 :: DocumentProcessor where
  "processor1 = processor0\<lparr>min_chunk_size := 10, data_inputs := [long_doc, short_doc, long_doc]\<rparr>"

text \<open>
  A chunker with \<open>chunk_size = 10\<close> and \<open>chunk_overlap = 2\<close> holding a text of twenty
  characters without separator and a text of three paragraphs.
\<close>

definition processor2 :: DocumentProcessor where
  "processor2 =
     processor0\<lparr>chunk_size := 10, chunk_overlap := 2, min_chunk_size := 1,
       data_inputs :=
         [\<lparr>d_text = ''aaaaaaaaaaaaaaaaaaaa'', d_data = [(''source'', ''one.pdf'')]\<rparr>,
          \<lparr>d_text = ''aaaa\<newline>\<newline>bbbb\<newline>\<newline>cccc'', d_data = [(''source'', ''two.pdf'')]\<rparr>]\<rparr>"

section \<open>The vector index is created at most once\<close>

lemma ensure_index_exists_created:
  "ensure_index_exists api self = (Inr (), self') \<Longrightarrow> index_created self'"
  by (auto simp: ensure_index_exists_def Let_def split: if_splits option.splits)

lemma ensure_index_exists_noop:
  "index_created self \<Longrightarrow> ensure_index_exists api self = (Inr (), self)"
  by (simp add: ensure_index_exists_def)

text \<open>
  Claim C9. Once one call of \<open>ensure_index_exists\<close> has completed successfully, a
  second call, whatever the index service would answer then, returns normally and leaves
  the store as it is: in particular it sends no \<open>create_index\<close> request. And when
  \<open>create_index\<close> raises an exception whose message contains \<open>already exists\<close> (in
  any capitalisation), the call returns normally and marks the index as created.
\<close>

theorem ensure_index_exists_idempotent:
  "(ensure_index_exists api self = (Inr (), self') \<longrightarrow>
      ensure_index_exists api' self' = (Inr (), self') \<and>
      create_index_calls (vector_store (snd (ensure_index_exists api' self'))) =
        create_index_calls (vector_store self')) \<and>
   (\<not> index_created self \<and> create_index_answer api (vector_store self) = Some msg \<and>
      str_in ''already exists'' (lower msg) \<longrightarrow>
      fst (ensure_index_exists api self) = Inr () \<and>
      index_created (snd (ensure_index_exists api self)))"
proof (intro conjI impI)
  assume ok: "ensure_index_exists api self = (Inr (), self')"
  then have "index_created self'" by (rule ensure_index_exists_created)
  then show again: "ensure_index_exists api' self' = (Inr (), self')"
    by (rule ensure_index_exists_noop)
  then show "create_index_calls (vector_store (snd (ensure_index_exists api' self'))) =
      create_index_calls (vector_store self')"
    by simp
next
  assume h: "\<not> index_created self \<and> create_index_answer api (vector_store self) = Some msg \<and>
      str_in ''already exists'' (lower msg)"
  then show "fst (ensure_index_exists api self) = Inr ()"
    by (simp add: ensure_index_exists_def Let_def)
  from h show "index_created (snd (ensure_index_exists api self))"
    by (simp add: ensure_index_exists_def Let_def)
qed

text \<open>
  The index service answers \<open>Index Already Exists\<close> to the first call: the call
  succeeds, and a second call succeeds without a request even with the service down.
  With the service down from the start, the first call raises.
\<close>

theorem ensure_index_exists_idempotent_witness:
  "fst (ensure_index_exists api_exists store0) = Inr () \<and>
   index_created (snd (ensure_index_exists api_exists store0)) \<and>
   ensure_index_exists api_down (snd (ensure_index_exists api_exists store0)) =
     (Inr (), snd (ensure_index_exists api_exists store0)) \<and>
   create_index_calls (vector_store (snd (ensure_index_exists api_down
       (snd (ensure_index_exists api_exists store0))))) = [(100, 1536, 16, 64)] \<and>
   fst (ensure_index_exists api_down store0) = Inl (ExternalError ''connection refused'')"
  using ensure_index_exists_idempotent
    [of api_exists store0 "snd (ensure_index_exists api_exists store0)" api_down
        "''Index Already Exists''"]
  by (simp add: ensure_index_exists_def store0_def api_exists_def api_ok_def api_down_def
      lower_def char_lower_def Let_def)

section \<open>The status report\<close>

text \<open>
  Claim C5. In every state of the chunker \<open>get_status\<close> returns normally: the number of
  inputs, the number of chunks, the average and the total of the chunks' lengths, with the
  average 0 when there is no chunk; after \<open>clear\<close> all four are 0.
\<close>

theorem get_status_total:
  "get_status self =
     Inr \<lparr>input_documents = int (length (data_inputs self)),
          output_chunks = int (length (status self)),
          average_chunk_size =
            (if status self = [] then 0
             else Fract (total_len (status self)) (int (length (status self)))),
          total_characters = total_len (status self)\<rparr> \<and>
   get_status (clear self) =
     Inr \<lparr>input_documents = 0, output_chunks = 0, average_chunk_size = 0, total_characters = 0\<rparr>"
  by (simp add: get_status_def py_truediv_def clear_def total_len_def)

section \<open>Batch conversion isolates the failure of one file\<close>

lemma convert_loop_partition:
  "fst (convert_loop api self t pdfs (r, fs)) =
     r\<lparr>successful := successful r @ map fst (filter (converts api self t) pdfs),
       failed := failed r @ map fst (filter (\<lambda>p. \<not> converts api self t p) pdfs)\<rparr>"
  by (induction pdfs arbitrary: r fs)
     (auto simp: convert_single_pdf_def setup_tenant_directories_def converts_def Let_def
           split: sum.splits prod.splits)

text \<open>
  Claim C6. Once the uploads are staged, \<open>batch_convert_pdfs\<close> returns for the PDF files
  of the tenant's directory: in \<open>successful\<close> the names of the files the converter
  extracts a text from, in \<open>failed\<close> the names of the files it raises on, each file
  judged on its own whatever happened to the files before it, and in \<open>total\<close> the
  number of files, which is the sum of the two lengths. For a tenant without files it
  returns three empty entries and does not raise.
\<close>

theorem batch_convert_pdfs_partition:
  "(stage_uploads self fs tenant_id temp_dir = (Inr (), fs1) \<and>
    fst (get_pdf_files self fs1 tenant_id) = pdf_files \<longrightarrow>
      fst (batch_convert_pdfs api self fs tenant_id temp_dir) =
        Inr \<lparr>successful = map fst (filter (converts api self tenant_id) pdf_files),
             failed = map fst (filter (\<lambda>p. \<not> converts api self tenant_id p) pdf_files),
             total = int (length pdf_files)\<rparr> \<and>
      int (length (filter (converts api self tenant_id) pdf_files)) +
        int (length (filter (\<lambda>p. \<not> converts api self tenant_id p) pdf_files)) =
        int (length pdf_files)) \<and>
   (fst (get_pdf_files self fs tenant_id) = [] \<longrightarrow>
      fst (batch_convert_pdfs api self fs tenant_id None) =
        Inr \<lparr>successful = [], failed = [], total = 0\<rparr>)"
proof (intro conjI impI)
  assume h: "stage_uploads self fs tenant_id temp_dir = (Inr (), fs1) \<and>
    fst (get_pdf_files self fs1 tenant_id) = pdf_files"
  obtain fs2 where g: "get_pdf_files self fs1 tenant_id = (pdf_files, fs2)"
    using h by (cases "get_pdf_files self fs1 tenant_id") auto
  show "fst (batch_convert_pdfs api self fs tenant_id temp_dir) =
        Inr \<lparr>successful = map fst (filter (converts api self tenant_id) pdf_files),
             failed = map fst (filter (\<lambda>p. \<not> converts api self tenant_id p) pdf_files),
             total = int (length pdf_files)\<rparr>"
  proof (cases "pdf_files = []")
    case True
    then show ?thesis using h g by (simp add: batch_convert_pdfs_def)
  next
    case False
    have "fst (convert_loop api self tenant_id pdf_files
             (\<lparr>successful = [], failed = [], total = int (length pdf_files)\<rparr>, fs2)) =
          \<lparr>successful = map fst (filter (converts api self tenant_id) pdf_files),
           failed = map fst (filter (\<lambda>p. \<not> converts api self tenant_id p) pdf_files),
           total = int (length pdf_files)\<rparr>"
      by (simp add: convert_loop_partition)
    then show ?thesis using h g False
      by (auto simp: batch_convert_pdfs_def split: prod.splits)
  qed
  show "int (length (filter (converts api self tenant_id) pdf_files)) +
        int (length (filter (\<lambda>p. \<not> converts api self tenant_id p) pdf_files)) =
        int (length pdf_files)"
    using sum_length_filter_compl [of "converts api self tenant_id" pdf_files] by simp
next
  assume "fst (get_pdf_files self fs tenant_id) = []"
  then show "fst (batch_convert_pdfs api self fs tenant_id None) =
        Inr \<lparr>successful = [], failed = [], total = 0\<rparr>"
    by (cases "get_pdf_files self fs tenant_id") (simp add: batch_convert_pdfs_def stage_uploads_def)
qed

lemma fs_acme_listing:
  "get_pdf_files converter0 fs_acme ''acme'' =
     ([(''a.pdf'', ''pdf-a''), (''b.pdf'', ''broken''), (''c.pdf'', ''pdf-c'')],
      \<lparr>dirs = [(''/app/policy_docs/acme'',
                 [(''a.pdf'', ''pdf-a''), (''b.pdf'', ''broken''), (''c.pdf'', ''pdf-c''),
                  (''notes.txt'', ''no pdf'')]),
               (''/app/processed_texts/acme'', [])]\<rparr>)"
  by (simp add: get_pdf_files_def setup_tenant_directories_def tenant_input_dir_def
      tenant_output_dir_def path_join_def converter0_def fs_acme_def mkdir_def dir_exists_def
      set_dir_def glob_pdf_def listdir_def endswith_def Let_def)

text \<open>
  The second of three files is broken: the first and the third are converted all the same.
  A tenant without a directory gets the empty report.
\<close>

theorem batch_convert_pdfs_partition_witness:
  "fst (batch_convert_pdfs pdf_api0 converter0 fs_acme ''acme'' None) =
     Inr \<lparr>successful = [''a.pdf'', ''c.pdf''], failed = [''b.pdf''], total = 3\<rparr> \<and>
   fst (batch_convert_pdfs pdf_api0 converter0 fs_acme ''nobody'' None) =
     Inr \<lparr>successful = [], failed = [], total = 0\<rparr>"
proof -
  have s: "stage_uploads converter0 fs_acme ''acme'' None = (Inr (), fs_acme)"
    by (simp add: stage_uploads_def)
  have n: "fst (get_pdf_files converter0 fs_acme ''nobody'') = []"
    by (simp add: get_pdf_files_def setup_tenant_directories_def tenant_input_dir_def
      tenant_output_dir_def path_join_def converter0_def fs_acme_def mkdir_def dir_exists_def
      set_dir_def glob_pdf_def listdir_def endswith_def Let_def)
  have c: "converts pdf_api0 converter0 ''acme'' (''a.pdf'', ''pdf-a'')"
    "\<not> converts pdf_api0 converter0 ''acme'' (''b.pdf'', ''broken'')"
    "converts pdf_api0 converter0 ''acme'' (''c.pdf'', ''pdf-c'')"
    by (simp_all add: converts_def pdf_api0_def)
  show ?thesis
    using batch_convert_pdfs_partition
      [of converter0 fs_acme "''acme''" None fs_acme
          "[(''a.pdf'', ''pdf-a''), (''b.pdf'', ''broken''), (''c.pdf'', ''pdf-c'')]" pdf_api0]
      batch_convert_pdfs_partition
      [of converter0 fs_acme "''nobody''" None fs_acme "[]" pdf_api0]
      s n c
    by (simp add: fs_acme_listing)
qed

section \<open>Searching\<close>

text \<open>
  Claim C1, at the tenant \<open>A\<close> with the caller's filter \<open>{"tenant_id": "B"}\<close>: the filter
  \<open>search_documents\<close> builds binds \<open>tenant_id\<close> to \<open>B\<close>, the caller's value, since
  the caller's criteria are written over the tenant's entry.
\<close>

theorem search_filter_overridden:
  "dict_get (search_filter ''A'' (Some [(''tenant_id'', ''B'')])) ''tenant_id'' = Some ''B''"
  by (simp add: search_filter_def dict_update_def dict_set_def dict_get_def)

text \<open>
  Claim C10. Whatever the query, the tenant, the filter and \<open>k\<close>, \<open>search_documents\<close>
  raises \<open>AttributeError\<close> at the call of \<open>create_metadata_filter\<close>, which the store
  does not define, and leaves the pipeline as it was: no request reaches the index. The call
  of \<open>advanced_search\<close> that follows would raise too, for every value of the filter:
  the method has no parameter \<open>filter\<close>; and what \<open>advanced_search\<close> returns cannot be
  awaited.
\<close>

theorem search_documents_always_raises:
  "search_documents api self query tenant_id filter_criteria k =
     (Raises (AttributeError ''VectorStore object has no attribute create_metadata_filter''), self) \<and>
   VectorStore_call api vs ''advanced_search'' []
       [(''query'', PStr query), (''k'', PInt k), (''filter'', v)] =
     (Raises (TypeError ''advanced_search() got an unexpected keyword argument filter''), vs) \<and>
   await_call ''advanced_search'' r = Inl (TypeError ''object can't be used in 'await' expression'')"
  by (simp add: search_documents_def VectorStore_call_def VectorStore_methods_def
      VectorStore_fields_def bind_args_def await_call_def VectorStore_async_def)

section \<open>Dictionaries and batches\<close>

declare slices.simps [simp del]

lemma dict_has_set: "dict_has k (dict_set k' v d) = (k = k' \<or> dict_has k d)"
  by (auto simp: dict_has_def dict_get_def dict_set_def update_conv')

lemma dict_has_iff: "dict_has k d = (k \<in> fst ` set d)"
  by (simp add: dict_has_def dict_get_def map_of_eq_None_iff)

lemma dict_has_update:
  "dict_has k (dict_update d other) = (dict_has k d \<or> dict_has k other)"
proof -
  have "dict_has k (fold (\<lambda>(k, v). dict_set k v) other d) = (dict_has k d \<or> k \<in> fst ` set other)"
    by (induction other arbitrary: d) (auto simp: dict_has_set)
  then show ?thesis by (simp add: dict_update_def dict_has_iff)
qed

lemma base_metadata_has_tenant: "dict_has ''tenant_id'' (base_metadata_of tenant_id extra)"
  by (simp add: base_metadata_of_def dict_has_update) (simp add: dict_has_def dict_get_def)

lemma langchain_docs_tenant:
  "doc \<in> set (langchain_docs (base_metadata_of tenant_id extra) chunks) \<Longrightarrow>
   dict_has ''tenant_id'' (metadata doc)"
  using base_metadata_has_tenant [of tenant_id extra]
  by (auto simp: langchain_docs_def Let_def dict_has_update)

lemma add_texts_docs_tenant:
  "doc \<in> set (add_texts_docs tenant_id chunks) \<Longrightarrow> dict_has ''tenant_id'' (metadata doc)"
  by (auto simp: add_texts_docs_def Let_def dict_has_set)

lemma slices_subset: "b \<in> set (slices n xs) \<Longrightarrow> set b \<subseteq> set xs \<and> b \<noteq> []"
proof (induction n xs rule: slices.induct)
  case (1 n xs)
  show ?case
  proof (cases "n = 0 \<or> xs = []")
    case True
    with "1.prems" show ?thesis by (simp add: slices.simps)
  next
    case False
    with "1.prems" have "b = take n xs \<or> b \<in> set (slices n (drop n xs))"
      by (subst (asm) slices.simps) auto
    then show ?thesis
    proof
      assume "b = take n xs"
      with False show ?thesis by (auto dest: in_set_takeD)
    next
      assume "b \<in> set (slices n (drop n xs))"
      with "1.IH" False have "set b \<subseteq> set (drop n xs) \<and> b \<noteq> []" by blast
      then show ?thesis by (auto dest: in_set_dropD)
    qed
  qed
qed

lemma concat_slices: "0 < n \<Longrightarrow> concat (slices n xs) = xs"
proof (induction n xs rule: slices.induct)
  case (1 n xs)
  show ?case
  proof (cases "xs = []")
    case True
    then show ?thesis by (simp add: slices.simps)
  next
    case False
    with 1 have "concat (slices n (drop n xs)) = drop n xs" by simp
    with False "1.prems" show ?thesis by (subst slices.simps) simp
  qed
qed

text \<open>What \<open>run_batches\<close> adds to the log, for batches of documents.\<close>

lemma process_batch_log:
  "set b \<subseteq> range Doc \<Longrightarrow> b \<noteq> [] \<Longrightarrow>
   add_calls (snd (process_batch api db b None)) = add_calls db @ [AddDocuments b]"
  by (cases b; cases "hd b")
     (auto simp: process_batch_def batch_request_def Let_def split: sum.splits item.splits)

lemma run_batches_log:
  "\<forall>b \<in> set bs. set b \<subseteq> range Doc \<and> b \<noteq> [] \<Longrightarrow>
   add_calls (snd (run_batches api db (zip bs (replicate (length bs) None)))) =
     add_calls db @ map AddDocuments bs"
proof (induction bs arbitrary: db)
  case Nil
  then show ?case by simp
next
  case (Cons b bs)
  have "add_calls (snd (process_batch api db b None)) = add_calls db @ [AddDocuments b]"
    using Cons.prems by (simp add: process_batch_log)
  moreover have "add_calls (snd (run_batches api (snd (process_batch api db b None))
        (zip bs (replicate (length bs) None)))) =
      add_calls (snd (process_batch api db b None)) @ map AddDocuments bs"
    using Cons.prems by (intro Cons.IH) simp
  ultimately show ?case
    by (simp add: split_beta Let_def)
qed

text \<open>
  Whatever the items and the metadata, a non-empty batch adds one request to the log, chosen
  by the batch's first item; the log after the batches is the old log and one request for
  each pair of a document batch and a metadata batch.
\<close>

lemma process_batch_request:
  "b \<noteq> [] \<Longrightarrow>
   add_calls (snd (process_batch api db b md)) = add_calls db @ [batch_request (hd b) b md]"
  by (cases b) (auto simp: process_batch_def Let_def split: sum.splits)

lemma run_batches_requests:
  "\<forall>b \<in> fst ` set bms. b \<noteq> [] \<Longrightarrow>
   add_calls (snd (run_batches api db bms)) =
     add_calls db @ map (\<lambda>(b, md). batch_request (hd b) b md) bms"
proof (induction bms arbitrary: db)
  case Nil
  then show ?case by simp
next
  case (Cons bm bms)
  obtain b md where bm: "bm = (b, md)" by (cases bm)
  have "add_calls (snd (process_batch api db b md)) = add_calls db @ [batch_request (hd b) b md]"
    using Cons.prems bm by (simp add: process_batch_request)
  moreover have "add_calls (snd (run_batches api (snd (process_batch api db b md)) bms)) =
      add_calls (snd (process_batch api db b md)) @ map (\<lambda>(b, md). batch_request (hd b) b md) bms"
    using Cons.prems by (intro Cons.IH) simp
  ultimately show ?case
    by (simp add: bm split_beta Let_def)
qed

lemma zip_replicate_requests:
  "map (\<lambda>(b, md). f b md) (zip bs (replicate (length bs) x)) = map (\<lambda>b. f b x) bs"
  by (induction bs) simp_all

lemma zip_Some_requests:
  "map (\<lambda>(b, md). f b md) (zip bs (map Some mds)) = map (\<lambda>(b, md). f b (Some md)) (zip bs mds)"
  by (simp add: zip_map2 split_beta)

text \<open>
  The first \<open>k\<close> batches hold the first \<open>k * n\<close> elements, and \<open>xs\<close> is cut into
  \<open>\<lceil>length xs / n\<rceil>\<close> batches: pairing the batches of the documents with those of a shorter
  list leaves the later documents out.
\<close>

lemma slices_nonempty: "\<forall>b \<in> set (slices n xs). b \<noteq> []"
  using slices_subset [of _ n xs] by blast

lemma concat_take_slices:
  "0 < n \<Longrightarrow> concat (take k (slices n xs)) = take (k * n) xs"
proof (induction n xs arbitrary: k rule: slices.induct)
  case (1 n xs)
  show ?case
  proof (cases "xs = []")
    case True
    then show ?thesis by (subst slices.simps) simp
  next
    case False
    show ?thesis
    proof (cases k)
      case 0
      then show ?thesis by simp
    next
      case (Suc j)
      have ih: "concat (take j (slices n (drop n xs))) = take (j * n) (drop n xs)"
        using "1.IH" [of j] "1.prems" False by simp
      have "concat (take k (slices n xs)) = take n xs @ concat (take j (slices n (drop n xs)))"
        using "1.prems" False Suc by (subst slices.simps) simp
      also have "\<dots> = take n xs @ take (j * n) (drop n xs)"
        by (simp only: ih)
      also have "\<dots> = take (n + j * n) xs"
        by (simp add: take_add)
      finally show ?thesis using Suc by simp
    qed
  qed
qed

lemma zip_slices_documents:
  "0 < n \<Longrightarrow>
   concat (map fst (zip (slices n xs) (slices n mds))) = take (length (slices n mds) * n) xs"
proof -
  assume n: "0 < n"
  have "map fst (zip (slices n xs) (slices n mds)) =
      take (min (length (slices n xs)) (length (slices n mds))) (slices n xs)"
    by (rule map_fst_zip_take)
  also have "\<dots> = take (length (slices n mds)) (slices n xs)"
    by (simp add: min_def)
  finally show ?thesis
    using n by (simp add: concat_take_slices)
qed


lemma ceil_step:
  fixes l n :: nat
  assumes "0 < n" "0 < l"
  shows "Suc ((l - n + n - 1) div n) = (l + n - 1) div n"
proof (cases "n \<le> l")
  case True
  then have a: "l + n - 1 = (l - 1) + n" and b: "l - n + n - 1 = l - 1"
    using assms by simp_all
  have "((l - 1) + n) div n = (l - 1) div n + 1"
    using assms by (intro div_add_self2) simp
  then show ?thesis
    by (simp only: a b Suc_eq_plus1)
next
  case False
  then have a: "l - n + n - 1 = n - 1" by simp
  have b: "(n - 1) div n = 0" using assms by simp
  obtain j where j: "l = Suc j" using assms by (cases l) auto
  have d: "l + n - 1 = j + n" using j by simp
  have "j < n" using False j by simp
  then have e: "j div n = 0" by simp
  have "(j + n) div n = j div n + 1"
    using assms by (intro div_add_self2) simp
  then have c: "(l + n - 1) div n = 1"
    by (simp only: d e)
  show ?thesis
    by (simp only: a b c)
qed

lemma length_slices: "0 < n \<Longrightarrow> length (slices n xs) = (length xs + n - 1) div n"
proof (induction n xs rule: slices.induct)
  case (1 n xs)
  show ?case
  proof (cases "xs = []")
    case True
    then show ?thesis using "1.prems" by (subst slices.simps) simp
  next
    case False
    have ih: "length (slices n (drop n xs)) = (length (drop n xs) + n - 1) div n"
      using "1.IH" "1.prems" False by simp
    have "length (slices n xs) = Suc (length (slices n (drop n xs)))"
      using "1.prems" False by (subst slices.simps) simp
    also have "\<dots> = Suc ((length xs - n + n - 1) div n)"
      by (simp only: ih length_drop)
    also have "\<dots> = (length xs + n - 1) div n"
      using "1.prems" False by (intro ceil_step) simp_all
    finally show ?thesis .
  qed
qed

lemma ensure_index_exists_keeps:
  "add_calls (vector_store (snd (ensure_index_exists api self))) = add_calls (vector_store self) \<and>
   batch_config (snd (ensure_index_exists api self)) = batch_config self"
  by (simp add: ensure_index_exists_def Let_def split: option.splits)

lemma batch_add_documents_log:
  "\<exists>bs. add_calls (vector_store (snd (batch_add_documents api self (map Doc docs) None))) =
          add_calls (vector_store self) @ map AddDocuments bs \<and>
        (\<forall>b \<in> set bs. set b \<subseteq> Doc ` set docs)"
proof -
  obtain r self1 where e: "ensure_index_exists api self = (r, self1)"
    by (cases "ensure_index_exists api self")
  have k: "add_calls (vector_store self1) = add_calls (vector_store self)"
    "batch_config self1 = batch_config self"
    using ensure_index_exists_keeps [of api self] e by simp_all
  let ?n = "batch_size (batch_config self)"
  let ?bs = "slices (nat ?n) (map Doc docs)"
  have sub: "\<forall>b \<in> set ?bs. set b \<subseteq> range Doc \<and> b \<noteq> []"
    using slices_subset [of _ "nat ?n" "map Doc docs"] by fastforce
  have sub': "\<forall>b \<in> set ?bs. set b \<subseteq> Doc ` set docs"
    using slices_subset [of _ "nat ?n" "map Doc docs"] by auto
  have none: "\<exists>bs. add_calls (vector_store self) = add_calls (vector_store self) @ map AddDocuments bs \<and>
        (\<forall>b \<in> set bs. set b \<subseteq> Doc ` set docs)"
    by (rule exI [of _ "[]"]) simp
  show ?thesis
  proof (cases "\<exists>u. r = Inr u \<and> 0 < ?n \<and> 0 < max_concurrency (batch_config self)")
    case True
    then have "add_calls (vector_store (snd (batch_add_documents api self (map Doc docs) None))) =
        add_calls (vector_store self) @ map AddDocuments ?bs"
      using e k run_batches_log [OF sub, of api "vector_store self1"]
      by (auto simp: batch_add_documents_def batches_def Let_def split_beta split: sum.splits)
    with sub' show ?thesis by blast
  next
    case False
    then have "add_calls (vector_store (snd (batch_add_documents api self (map Doc docs) None))) =
        add_calls (vector_store self)"
      using e k
      by (cases r) (auto simp: batch_add_documents_def batches_def Let_def split_beta split: sum.splits)
    with none show ?thesis by simp
  qed
qed

section \<open>The batch write checks no metadata\<close>

text \<open>
  Claim C2, as stated, at one document without \<open>tenant_id\<close>: the write returns
  normally and the document is in the request sent to the index.
\<close>

theorem batch_add_documents_untagged_counterexample:
  "fst (batch_add_documents api_ok store0 [Doc untagged] None) = Returns [''id''] \<and>
   add_calls (vector_store (snd (batch_add_documents api_ok store0 [Doc untagged] None))) =
     [AddDocuments [Doc untagged]] \<and>
   \<not> dict_has ''tenant_id'' (metadata untagged)"
  by (simp add: batch_add_documents_def ensure_index_exists_def api_ok_def store0_def
      batches_def slices.simps process_batch_def batch_request_def untagged_def Let_def
      dict_has_def dict_get_def)

text \<open>
  The requests steps 3 to 5 of \<open>process_pdfs\<close> add to the log of the index carry tagged
  documents only.
\<close>

lemma chunk_and_store_log:
  "\<exists>new. add_calls (vector_store (pipeline_vector_store
            (snd (chunk_and_store api self (base_metadata_of tenant_id extra) documents)))) =
          add_calls (vector_store (pipeline_vector_store self)) @ new \<and>
        (\<forall>req \<in> set new. \<forall>i \<in> set (request_items req). has_tenant i)"
proof -
  let ?bm = "base_metadata_of tenant_id extra"
  have none: "\<exists>new. add_calls (vector_store (pipeline_vector_store self)) =
          add_calls (vector_store (pipeline_vector_store self)) @ new \<and>
        (\<forall>req \<in> set new. \<forall>i \<in> set (request_items req). has_tenant i)"
    by (rule exI [of _ "[]"]) simp
  obtain r dp where a: "add_documents (clear (doc_processor self)) documents = (r, dp)"
    by (cases "add_documents (clear (doc_processor self)) documents")
  obtain r1 dp1 where s: "split_text (text_service api) dp = (r1, dp1)"
    by (cases "split_text (text_service api) dp")
  show ?thesis
  proof (cases r)
    case (Inl e)
    with a none show ?thesis by (simp add: chunk_and_store_def)
  next
    case (Inr u)
    show ?thesis
    proof (cases r1)
      case (Inl e)
      with a s Inr none show ?thesis by (simp add: chunk_and_store_def)
    next
      case r1: (Inr chunks)
      let ?w = "batch_add_documents (cosmos_service api) (pipeline_vector_store self)
                  (map Doc (langchain_docs ?bm chunks)) None"
      obtain bs where b: "add_calls (vector_store (snd ?w)) =
            add_calls (vector_store (pipeline_vector_store self)) @ map AddDocuments bs"
          "\<forall>b \<in> set bs. set b \<subseteq> Doc ` set (langchain_docs ?bm chunks)"
        using batch_add_documents_log
          [of "cosmos_service api" "pipeline_vector_store self" "langchain_docs ?bm chunks"]
        by blast
      have tagged: "\<forall>req \<in> set (map AddDocuments bs). \<forall>i \<in> set (request_items req). has_tenant i"
        using b(2) langchain_docs_tenant [of _ tenant_id extra chunks]
        by (fastforce simp: request_items_def has_tenant_def)
      have "pipeline_vector_store (snd (chunk_and_store api self ?bm documents)) = snd ?w"
        using a s Inr r1
        by (cases ?w) (auto simp: chunk_and_store_def split: outcome.splits sum.splits)
      with b(1) tagged show ?thesis by auto
    qed
  qed
qed

text \<open>
  Claim C2, amended. \<open>batch_add_documents\<close> looks at no metadata and rejects nothing for
  a missing \<open>tenant_id\<close>. Once the index is ready, with positive \<open>batch_size\<close> and
  \<open>max_concurrency\<close>:

  \<^item> called with documents only (\<open>metadatas\<close> absent or empty), it sends the items it is
    given to the index, all of them and in order, in batches of \<open>batch_size\<close>, one request
    for each batch: \<open>add_texts\<close> when the first item of the batch is a string,
    \<open>add_documents\<close> otherwise;

  \<^item> called with a non-empty \<open>metadatas\<close>, it pairs the batches of the documents with the
    batches of the metadata and sends one request for each pair, so the documents sent are
    the first \<open>\<lceil>len(metadatas) / batch_size\<rceil> * batch_size\<close> ones and the later ones are not
    sent.

  The \<open>tenant_id\<close> of what is written comes from the callers: every document in a request
  that steps 3 to 5 of \<open>process_pdfs\<close> send has the key \<open>tenant_id\<close>, and so has every
  document \<open>add_texts\<close> prepares.
\<close>

theorem batch_add_documents_forwards:
  "(ensure_index_exists api self = (Inr (), self1) \<and> 0 < batch_size (batch_config self) \<and>
      0 < max_concurrency (batch_config self) \<longrightarrow>
        (metadatas = None \<or> metadatas = Some [] \<longrightarrow>
           add_calls (vector_store (snd (batch_add_documents api self documents metadatas))) =
             add_calls (vector_store self1) @
             map (\<lambda>b. batch_request (hd b) b None)
               (slices (nat (batch_size (batch_config self))) documents) \<and>
           concat (slices (nat (batch_size (batch_config self))) documents) = documents) \<and>
        (mds \<noteq> [] \<longrightarrow>
           add_calls (vector_store (snd (batch_add_documents api self documents (Some mds)))) =
             add_calls (vector_store self1) @
             map (\<lambda>(b, md). batch_request (hd b) b (Some md))
               (zip (slices (nat (batch_size (batch_config self))) documents)
                    (slices (nat (batch_size (batch_config self))) mds)) \<and>
           concat (map fst (zip (slices (nat (batch_size (batch_config self))) documents)
                                (slices (nat (batch_size (batch_config self))) mds))) =
             take ((length mds + nat (batch_size (batch_config self)) - 1)
                     div nat (batch_size (batch_config self)) *
                   nat (batch_size (batch_config self))) documents)) \<and>
   (\<exists>new. add_calls (vector_store (pipeline_vector_store
              (snd (chunk_and_store svc p (base_metadata_of tenant_id extra) docs)))) =
            add_calls (vector_store (pipeline_vector_store p)) @ new \<and>
          (\<forall>req \<in> set new. \<forall>i \<in> set (request_items req). has_tenant i)) \<and>
   (\<forall>doc \<in> set (add_texts_docs tenant_id chunks). dict_has ''tenant_id'' (metadata doc))"
proof (intro conjI impI)
  assume h: "ensure_index_exists api self = (Inr (), self1) \<and> 0 < batch_size (batch_config self) \<and>
      0 < max_concurrency (batch_config self)"
  let ?n = "batch_size (batch_config self)"
  let ?bs = "slices (nat ?n) documents"
  have k: "batch_config self1 = batch_config self"
    using ensure_index_exists_keeps [of api self] h by simp
  have ne: "\<And>xs. \<forall>b \<in> fst ` set (zip ?bs xs). b \<noteq> []"
    using slices_nonempty [of "nat ?n" documents] by (auto dest: set_zip_leftD)
  {
    assume md: "metadatas = None \<or> metadatas = Some []"
    have "add_calls (vector_store (snd (batch_add_documents api self documents metadatas))) =
        add_calls (vector_store self1) @
        map (\<lambda>(b, md). batch_request (hd b) b md) (zip ?bs (replicate (length ?bs) None))"
      using h k md run_batches_requests [OF ne, of api "vector_store self1"]
      by (auto simp: batch_add_documents_def batches_def Let_def split_beta split: sum.splits)
    then show "add_calls (vector_store (snd (batch_add_documents api self documents metadatas))) =
        add_calls (vector_store self1) @ map (\<lambda>b. batch_request (hd b) b None) ?bs"
      by (simp only: zip_replicate_requests)
  }
  show "concat ?bs = documents"
    using h by (simp add: concat_slices)
  {
    assume md: "mds \<noteq> []"
    have "add_calls (vector_store (snd (batch_add_documents api self documents (Some mds)))) =
        add_calls (vector_store self1) @
        map (\<lambda>(b, md). batch_request (hd b) b md)
          (zip ?bs (map Some (slices (nat ?n) mds)))"
      using h k md run_batches_requests [OF ne, of api "vector_store self1"]
      by (auto simp: batch_add_documents_def batches_def Let_def split_beta split: sum.splits)
    then show "add_calls (vector_store (snd (batch_add_documents api self documents (Some mds)))) =
        add_calls (vector_store self1) @
        map (\<lambda>(b, md). batch_request (hd b) b (Some md)) (zip ?bs (slices (nat ?n) mds))"
      by (simp only: zip_Some_requests)
  }
  show "concat (map fst (zip ?bs (slices (nat ?n) mds))) =
      take ((length mds + nat ?n - 1) div nat ?n * nat ?n) documents"
    using h zip_slices_documents [of "nat ?n" documents mds] length_slices [of "nat ?n" mds]
    by simp
next
  show "\<exists>new. add_calls (vector_store (pipeline_vector_store
              (snd (chunk_and_store svc p (base_metadata_of tenant_id extra) docs)))) =
            add_calls (vector_store (pipeline_vector_store p)) @ new \<and>
          (\<forall>req \<in> set new. \<forall>i \<in> set (request_items req). has_tenant i)"
    by (rule chunk_and_store_log)
next
  show "\<forall>doc \<in> set (add_texts_docs tenant_id chunks). dict_has ''tenant_id'' (metadata doc)"
    by (auto dest: add_texts_docs_tenant)
qed

text \<open>
  Three strings go out in two batches; with one metadata entry only the first batch goes
  out, and the call returns its two ids; \<open>add_texts\<close> tags a bare chunk.
\<close>

theorem batch_add_documents_forwards_witness:
  "add_calls (vector_store (snd (batch_add_documents api_ok
       (store0\<lparr>batch_config := \<lparr>batch_size = 2, max_concurrency = 4\<rparr>\<rparr>)
       [Text ''a'', Text ''b'', Text ''c''] None))) =
     [AddTexts [Text ''a'', Text ''b''] None, AddTexts [Text ''c''] None] \<and>
   add_calls (vector_store (snd (batch_add_documents api_ok
       (store0\<lparr>batch_config := \<lparr>batch_size = 2, max_concurrency = 4\<rparr>\<rparr>)
       [Text ''a'', Text ''b'', Text ''c''] (Some [[(''page'', ''1'')]])))) =
     [AddTexts [Text ''a'', Text ''b''] (Some [[(''page'', ''1'')]])] \<and>
   fst (batch_add_documents api_ok
       (store0\<lparr>batch_config := \<lparr>batch_size = 2, max_concurrency = 4\<rparr>\<rparr>)
       [Text ''a'', Text ''b'', Text ''c''] (Some [[(''page'', ''1'')]])) = Returns [''id'', ''id''] \<and>
   dict_has ''tenant_id'' (metadata (hd (add_texts_docs ''acme'' [\<lparr>d_text = ''chunk'', d_data = []\<rparr>])))"
proof -
  let ?s = "store0\<lparr>batch_config := \<lparr>batch_size = 2, max_concurrency = 4\<rparr>\<rparr>"
  have e: "ensure_index_exists api_ok ?s = (Inr (), snd (ensure_index_exists api_ok ?s))"
    by (simp add: ensure_index_exists_def api_ok_def store0_def Let_def)
  have l: "add_calls (vector_store (snd (ensure_index_exists api_ok ?s))) = []"
    by (simp add: ensure_index_exists_def api_ok_def store0_def Let_def)
  have c: "batch_size (batch_config ?s) = 2" "max_concurrency (batch_config ?s) = 4"
    by simp_all
  have sl: "slices (nat 2) [Text ''a'', Text ''b'', Text ''c''] = [[Text ''a'', Text ''b''], [Text ''c'']]"
      "slices (nat 2) [[(''page'', ''1'')]] = [[[(''page'', ''1'')]]]"
    by (simp_all add: slices.simps)
  have r: "fst (batch_add_documents api_ok ?s [Text ''a'', Text ''b'', Text ''c'']
        (Some [[(''page'', ''1'')]])) = Returns [''id'', ''id'']"
    by (simp add: batch_add_documents_def ensure_index_exists_def api_ok_def store0_def
        batches_def slices.simps process_batch_def batch_request_def Let_def)
  show ?thesis
    using batch_add_documents_forwards
      [of api_ok ?s "snd (ensure_index_exists api_ok ?s)" None "[Text ''a'', Text ''b'', Text ''c'']"
          "[[(''page'', ''1'')]]" services0 pipeline0 "''acme''" None "[]"
          "[\<lparr>d_text = ''chunk'', d_data = []\<rparr>]"]
      e l r
    unfolding c sl
    by (simp add: add_texts_docs_def to_lc_document_def batch_request_def)
qed

section \<open>The retry wrapper\<close>

declare retrying.simps [simp del]

lemma retrying_returns:
  "body n s = (Returns v, s') \<Longrightarrow> retrying k w body n (s, sl) = (Returns v, (s', sl))"
  by (subst retrying.simps) simp

lemma retrying_stops:
  "body n s = (Raises e, s') \<Longrightarrow> k \<le> n \<Longrightarrow>
   retrying k w body n (s, sl) = (Raises (RetryError e), (s', sl))"
  by (subst retrying.simps) (simp add: stop_after_attempt_def)

lemma retrying_again:
  "body n s = (Raises e, s') \<Longrightarrow> n < k \<Longrightarrow>
   retrying k w body n (s, sl) = retrying k w body (Suc n) (s', sl @ [w n])"
  by (subst retrying.simps) (simp add: stop_after_attempt_def)

lemma retrying_sleeps:
  "length (snd (snd (retrying k w body n (s, sl)))) \<le> length sl + (k - n)"
proof (induction k w body n "(s, sl)" arbitrary: s sl rule: retrying.induct)
  case (1 k w body n s sl)
  obtain r s' where b: "body n s = (r, s')" by (cases "body n s")
  show ?case
  proof (cases r)
    case (Raises e)
    show ?thesis
    proof (cases "n < k")
      case True
      then have "\<not> stop_after_attempt k n" by (simp add: stop_after_attempt_def)
      from "1.hyps" [OF b [symmetric] Raises this]
      have "length (snd (snd (retrying k w body (Suc n) (s', sl @ [w n])))) \<le>
          length (sl @ [w n]) + (k - Suc n)" .
      with True b Raises show ?thesis by (simp add: retrying_again)
    next
      case False
      with b Raises show ?thesis by (simp add: retrying_stops)
    qed
  next
    case NeverReturns
    with b show ?thesis by (subst retrying.simps) simp
  next
    case (Returns v)
    with b show ?thesis by (simp add: retrying_returns)
  qed
qed

lemma retrying_third:
  assumes "body 1 s0 = (Raises e1, s1)" and "body 2 s1 = (Raises e2, s2)"
  shows "retrying 3 w body 1 (s0, []) = retrying 3 w body 3 (s2, [w 1, w 2])"
proof -
  have "retrying 3 w body 1 (s0, []) = retrying 3 w body (Suc 1) (s1, [] @ [w 1])"
    using assms(1) by (rule retrying_again) simp
  also have "\<dots> = retrying 3 w body 2 (s1, [w 1])"
    by (simp add: numeral_2_eq_2)
  also have "\<dots> = retrying 3 w body (Suc 2) (s2, [w 1] @ [w 2])"
    using assms(2) by (rule retrying_again) simp
  also have "\<dots> = retrying 3 w body 3 (s2, [w 1, w 2])"
    by (simp add: numeral_3_eq_3 numeral_2_eq_2)
  finally show ?thesis .
qed

lemma wait_first:
  "wait_exponential 1 4 10 1 = 4" "wait_exponential 1 4 10 (Suc 0) = 4"
  "wait_exponential 1 4 10 2 = 4"
  by (simp_all add: wait_exponential_def)

text \<open>
  Claim C8. \<open>process_pdfs\<close> runs its body at most three times. When the first two
  attempts raise and the third returns, the call returns the statistics of the third
  attempt, after two sleeps of 4 seconds; when all three attempts raise, the call raises
  \<open>tenacity\<close>'s \<open>RetryError\<close> carrying the exception of the third attempt, after the
  same two sleeps. There are never more than two sleeps. The sleep after the attempt \<open>n\<close>
  is \<open>2 ^ (n - 1)\<close> seconds, raised to the floor of 4 and cut at the cap of 10.
\<close>

theorem process_pdfs_retry:
  "(process_pdfs_body (api 1) st0 tenant_id input_dir extra = (Raises e1, st1) \<and>
    process_pdfs_body (api 2) st1 tenant_id input_dir extra = (Raises e2, st2) \<and>
    process_pdfs_body (api 3) st2 tenant_id input_dir extra = (Returns stats, st3) \<longrightarrow>
      process_pdfs api st0 tenant_id input_dir extra = (Returns stats, (st3, [4, 4]))) \<and>
   (process_pdfs_body (api 1) st0 tenant_id input_dir extra = (Raises e1, st1) \<and>
    process_pdfs_body (api 2) st1 tenant_id input_dir extra = (Raises e2, st2) \<and>
    process_pdfs_body (api 3) st2 tenant_id input_dir extra = (Raises e3, st3) \<longrightarrow>
      process_pdfs api st0 tenant_id input_dir extra = (Raises (RetryError e3), (st3, [4, 4]))) \<and>
   length (snd (snd (process_pdfs api st0 tenant_id input_dir extra))) \<le> 2 \<and>
   wait_exponential 1 4 10 n = max 4 (min (2 ^ (n - 1)) 10) \<and>
   4 \<le> wait_exponential 1 4 10 n \<and> wait_exponential 1 4 10 n \<le> 10"
proof (intro conjI impI)
  let ?body = "\<lambda>n st'. process_pdfs_body (api n) st' tenant_id input_dir extra"
  {
    assume h: "process_pdfs_body (api 1) st0 tenant_id input_dir extra = (Raises e1, st1) \<and>
      process_pdfs_body (api 2) st1 tenant_id input_dir extra = (Raises e2, st2) \<and>
      process_pdfs_body (api 3) st2 tenant_id input_dir extra = (Returns stats, st3)"
    then have "retrying 3 (wait_exponential 1 4 10) ?body 1 (st0, []) =
          retrying 3 (wait_exponential 1 4 10) ?body 3
            (st2, [wait_exponential 1 4 10 1, wait_exponential 1 4 10 2])"
      by (intro retrying_third) blast+
    also have "\<dots> = (Returns stats, (st3, [wait_exponential 1 4 10 1, wait_exponential 1 4 10 2]))"
      using h by (intro retrying_returns) blast
    finally show "process_pdfs api st0 tenant_id input_dir extra = (Returns stats, (st3, [4, 4]))"
      by (simp add: process_pdfs_def wait_first)
  }
  {
    assume h: "process_pdfs_body (api 1) st0 tenant_id input_dir extra = (Raises e1, st1) \<and>
      process_pdfs_body (api 2) st1 tenant_id input_dir extra = (Raises e2, st2) \<and>
      process_pdfs_body (api 3) st2 tenant_id input_dir extra = (Raises e3, st3)"
    then have "retrying 3 (wait_exponential 1 4 10) ?body 1 (st0, []) =
          retrying 3 (wait_exponential 1 4 10) ?body 3
            (st2, [wait_exponential 1 4 10 1, wait_exponential 1 4 10 2])"
      by (intro retrying_third) blast+
    also have "\<dots> = (Raises (RetryError e3),
          (st3, [wait_exponential 1 4 10 1, wait_exponential 1 4 10 2]))"
      using h by (intro retrying_stops) auto
    finally show "process_pdfs api st0 tenant_id input_dir extra =
        (Raises (RetryError e3), (st3, [4, 4]))"
      by (simp add: process_pdfs_def wait_first)
  }
  show "length (snd (snd (process_pdfs api st0 tenant_id input_dir extra))) \<le> 2"
    using retrying_sleeps [of 3 "wait_exponential 1 4 10" ?body 1 st0 "[]"]
    by (simp add: process_pdfs_def)
  show "wait_exponential 1 4 10 n = max 4 (min (2 ^ (n - 1)) 10)"
    by (simp add: wait_exponential_def)
  show "4 \<le> wait_exponential 1 4 10 n" "wait_exponential 1 4 10 n \<le> 10"
    by (simp_all add: wait_exponential_def)
qed

lemma flaky_attempt_1: "fst (process_pdfs_body (services_flaky 1) (pipeline0, fs_acme) ''acme'' None None) =
   Raises (ExternalError ''embedding service unavailable'')"
  by code_simp

lemma flaky_attempt_2: "fst (process_pdfs_body (services_flaky 2) acme1 ''acme'' None None) =
   Raises (ExternalError ''embedding service unavailable'')"
  by code_simp

lemma flaky_attempt_3: "fst (process_pdfs_body (services_flaky 3) acme2 ''acme'' None None) =
   Returns \<lparr>r_tenant_id = ''acme'', pdfs_processed = 2, pdfs_failed = 1,
      failed_files = [''b.pdf''], chunks_created = 6, documents_stored = 6,
      processing_stats =
        \<lparr>input_documents = 2, output_chunks = 6,
           average_chunk_size = Fract 86 3, total_characters = 172\<rparr>\<rparr>"
  by code_simp

text \<open>
  Claim C7. When the conversion step of an attempt yields no successfully converted
  file, the body of \<open>process_pdfs\<close> raises \<open>ValueError\<close> with the message
  \<open>No PDFs were successfully converted\<close> and leaves the pipeline as it was: nothing is
  chunked, nothing is sent to the index. When this happens in each of the three attempts,
  the call raises \<open>RetryError\<close> carrying that \<open>ValueError\<close>, the pipeline still as it
  was.
\<close>

theorem process_pdfs_no_conversion:
  "(batch_convert_pdfs (pdf_service api) (pdf_converter self) fs tenant_id input_dir = (Inr r, fs1) \<and>
    successful r = [] \<longrightarrow>
      process_pdfs_body api (self, fs) tenant_id input_dir extra =
        (Raises (ValueError ''No PDFs were successfully converted''), (self, fs1))) \<and>
   (batch_convert_pdfs (pdf_service (apis 1)) (pdf_converter self) fs0 tenant_id input_dir = (Inr r1, fs1) \<and>
    successful r1 = [] \<and>
    batch_convert_pdfs (pdf_service (apis 2)) (pdf_converter self) fs1 tenant_id input_dir = (Inr r2, fs2) \<and>
    successful r2 = [] \<and>
    batch_convert_pdfs (pdf_service (apis 3)) (pdf_converter self) fs2 tenant_id input_dir = (Inr r3, fs3) \<and>
    successful r3 = [] \<longrightarrow>
      process_pdfs apis (self, fs0) tenant_id input_dir extra =
        (Raises (RetryError (ValueError ''No PDFs were successfully converted'')),
         ((self, fs3), [4, 4])))"
proof -
  have body: "process_pdfs_body a (self, f) tenant_id input_dir extra =
        (Raises (ValueError ''No PDFs were successfully converted''), (self, f'))"
    if "batch_convert_pdfs (pdf_service a) (pdf_converter self) f tenant_id input_dir = (Inr c, f')"
      and "successful c = []" for a f f' c
    using that by (simp add: process_pdfs_body_def)
  let ?body = "\<lambda>n st'. process_pdfs_body (apis n) st' tenant_id input_dir extra"
  let ?e = "ValueError ''No PDFs were successfully converted''"
  have chain: "process_pdfs apis (self, fs0) tenant_id input_dir extra =
        (Raises (RetryError ?e), ((self, fs3), [4, 4]))"
    if h: "batch_convert_pdfs (pdf_service (apis 1)) (pdf_converter self) fs0 tenant_id input_dir = (Inr r1, fs1) \<and>
      successful r1 = [] \<and>
      batch_convert_pdfs (pdf_service (apis 2)) (pdf_converter self) fs1 tenant_id input_dir = (Inr r2, fs2) \<and>
      successful r2 = [] \<and>
      batch_convert_pdfs (pdf_service (apis 3)) (pdf_converter self) fs2 tenant_id input_dir = (Inr r3, fs3) \<and>
      successful r3 = []"
  proof -
    have b1: "?body 1 (self, fs0) = (Raises ?e, (self, fs1))"
      using h by (intro body [of _ _ r1]) auto
    have b2: "?body 2 (self, fs1) = (Raises ?e, (self, fs2))"
      using h by (intro body [of _ _ r2]) auto
    have b3: "?body 3 (self, fs2) = (Raises ?e, (self, fs3))"
      using h by (intro body [of _ _ r3]) auto
    have "retrying 3 (wait_exponential 1 4 10) ?body 1 ((self, fs0), []) =
          retrying 3 (wait_exponential 1 4 10) ?body 3
            ((self, fs2), [wait_exponential 1 4 10 1, wait_exponential 1 4 10 2])"
      using b1 b2 by (rule retrying_third)
    also have "\<dots> = (Raises (RetryError ?e),
          ((self, fs3), [wait_exponential 1 4 10 1, wait_exponential 1 4 10 2]))"
      using b3 by (rule retrying_stops) simp
    finally show ?thesis
      by (simp add: process_pdfs_def wait_first)
  qed
  show ?thesis
    using body chain by blast
qed

lemma nobody_conversion:
  "batch_convert_pdfs pdf_api0 converter0 fs_acme ''nobody'' None =
     (Inr \<lparr>successful = [], failed = [], total = 0\<rparr>, fs_nobody)"
  "batch_convert_pdfs pdf_api0 converter0 fs_nobody ''nobody'' None =
     (Inr \<lparr>successful = [], failed = [], total = 0\<rparr>, fs_nobody)"
  by code_simp+

text \<open>A tenant without files: every attempt finds nothing to convert.\<close>

theorem process_pdfs_no_conversion_witness:
  "process_pdfs_body services0 (pipeline0, fs_acme) ''nobody'' None None =
     (Raises (ValueError ''No PDFs were successfully converted''), (pipeline0, fs_nobody)) \<and>
   process_pdfs (\<lambda>n. services0) (pipeline0, fs_acme) ''nobody'' None None =
     (Raises (RetryError (ValueError ''No PDFs were successfully converted'')),
      ((pipeline0, fs_nobody), [4, 4]))"
proof -
  have p: "pdf_service services0 = pdf_api0" "pdf_converter pipeline0 = converter0"
    by (simp_all add: services0_def pipeline0_def)
  show ?thesis
    using process_pdfs_no_conversion
      [of services0 pipeline0 fs_acme "''nobody''" None
          "\<lparr>successful = [], failed = [], total = 0\<rparr>" fs_nobody None
          "\<lambda>n. services0" fs_acme "\<lparr>successful = [], failed = [], total = 0\<rparr>"
          "\<lparr>successful = [], failed = [], total = 0\<rparr>" fs_nobody
          "\<lparr>successful = [], failed = [], total = 0\<rparr>" fs_nobody]
      nobody_conversion
    unfolding p by simp
qed

lemma flaky_attempts:
  "process_pdfs_body (services_flaky 1) (pipeline0, fs_acme) ''acme'' None None =
     (Raises (ExternalError ''embedding service unavailable''), acme1)"
  "process_pdfs_body (services_flaky 2) acme1 ''acme'' None None =
     (Raises (ExternalError ''embedding service unavailable''), acme2)"
  "process_pdfs_body (services_flaky 3) acme2 ''acme'' None None =
     (Returns \<lparr>r_tenant_id = ''acme'', pdfs_processed = 2, pdfs_failed = 1,
        failed_files = [''b.pdf''], chunks_created = 6, documents_stored = 6,
        processing_stats =
          \<lparr>input_documents = 2, output_chunks = 6,
             average_chunk_size = Fract 86 3, total_characters = 172\<rparr>\<rparr>, acme3)"
  using flaky_attempt_1 flaky_attempt_2 flaky_attempt_3 by (simp_all add: prod_eq_iff acme1_def acme2_def acme3_def)

lemma down_attempts_fst:
  "fst (process_pdfs_body (services_down 1) (pipeline0, fs_acme) ''acme'' None None) =
     Raises (ExternalError ''embedding service unavailable'')"
  "fst (process_pdfs_body (services_down 2) down1 ''acme'' None None) =
     Raises (ExternalError ''embedding service unavailable'')"
  "fst (process_pdfs_body (services_down 3) down2 ''acme'' None None) =
     Raises (ExternalError ''embedding service unavailable'')"
  by code_simp+

lemma down_attempts:
  "process_pdfs_body (services_down 1) (pipeline0, fs_acme) ''acme'' None None =
     (Raises (ExternalError ''embedding service unavailable''), down1)"
  "process_pdfs_body (services_down 2) down1 ''acme'' None None =
     (Raises (ExternalError ''embedding service unavailable''), down2)"
  "process_pdfs_body (services_down 3) down2 ''acme'' None None =
     (Raises (ExternalError ''embedding service unavailable''), down3)"
  using down_attempts_fst by (simp_all add: prod_eq_iff down1_def down2_def down3_def)

text \<open>
  The index refuses the writes of the first two attempts and accepts those of the third;
  and the index refuses every write.
\<close>

theorem process_pdfs_retry_witness:
  "process_pdfs services_flaky (pipeline0, fs_acme) ''acme'' None None =
     (Returns \<lparr>r_tenant_id = ''acme'', pdfs_processed = 2, pdfs_failed = 1,
        failed_files = [''b.pdf''], chunks_created = 6, documents_stored = 6,
        processing_stats =
          \<lparr>input_documents = 2, output_chunks = 6,
             average_chunk_size = Fract 86 3, total_characters = 172\<rparr>\<rparr>, (acme3, [4, 4])) \<and>
   process_pdfs services_down (pipeline0, fs_acme) ''acme'' None None =
     (Raises (RetryError (ExternalError ''embedding service unavailable'')), (down3, [4, 4]))"
  using process_pdfs_retry
      [of services_flaky "(pipeline0, fs_acme)" "''acme''" None None
          "ExternalError ''embedding service unavailable''" acme1
          "ExternalError ''embedding service unavailable''" acme2 _ acme3]
    process_pdfs_retry
      [of services_down "(pipeline0, fs_acme)" "''acme''" None None
          "ExternalError ''embedding service unavailable''" down1
          "ExternalError ''embedding service unavailable''" down2 _ down3
          "ExternalError ''embedding service unavailable''"]
    flaky_attempts down_attempts
  by simp

section \<open>The chunks of \<open>CharacterTextSplitter\<close> are no longer than the text\<close>

declare pop_front.simps [simp del]

lemma length_str_join: "length (str_join sep xs) = joined_length sep xs"
proof (cases xs)
  case Nil
  then show ?thesis by (simp add: str_join_def joined_length_def)
next
  case (Cons y ys)
  have "length (concat (map (\<lambda>z. sep @ z) ys)) = sum_list (map length ys) + length ys * length sep"
    by (induction ys) (simp_all add: algebra_simps)
  with Cons show ?thesis by (simp add: str_join_def joined_length_def)
qed

lemma joined_length_append:
  "joined_length sep (xs @ ys) =
     joined_length sep xs + joined_length sep ys + (if xs \<noteq> [] \<and> ys \<noteq> [] then length sep else 0)"
  by (cases xs; cases ys) (simp_all add: joined_length_def algebra_simps)

lemma joined_length_mono:
  "joined_length sep xs \<le> joined_length sep (xs @ ys)"
  "joined_length sep ys \<le> joined_length sep (xs @ ys)"
  by (simp_all add: joined_length_append)

lemma joined_length_Cons:
  "joined_length sep (x # xs) = length x + (if xs = [] then 0 else length sep + joined_length sep xs)"
  by (cases xs) (simp_all add: joined_length_def)

lemma joined_length_filter: "joined_length sep (filter P xs) \<le> joined_length sep xs"
proof (induction xs)
  case Nil
  then show ?case by simp
next
  case (Cons x xs)
  show ?case
  proof (cases "P x")
    case True
    with Cons show ?thesis
      by (cases "xs = []") (auto simp: joined_length_Cons)
  next
    case False
    have "joined_length sep xs \<le> joined_length sep (x # xs)"
      using joined_length_mono(2) [of sep xs "[x]"] by simp
    with False Cons show ?thesis by simp
  qed
qed

lemma length_strip: "length (strip s) \<le> length s"
proof -
  have "length (dropWhile is_space (rev (dropWhile is_space s))) \<le> length (rev (dropWhile is_space s))"
    by (rule length_dropWhile_le)
  also have "\<dots> \<le> length s" by (simp add: length_dropWhile_le)
  finally show ?thesis by (simp add: strip_def)
qed

lemma join_docs_length:
  "join_docs strip_ws cur sep = Some doc \<Longrightarrow> length doc \<le> joined_length sep cur"
  using length_strip [of "str_join sep cur"]
  by (auto simp: join_docs_def Let_def length_str_join split: if_splits)

text \<open>The inner loop keeps the joined length and leaves a tail of the pieces.\<close>

lemma pop_front_total:
  "tot = int (joined_length sep cur) \<Longrightarrow> 0 \<le> overlap \<Longrightarrow>
   \<exists>k. pop_front csize overlap (int (length sep)) len cur tot =
         Inr (drop k cur, int (joined_length sep (drop k cur)))"
proof (induction csize overlap "int (length sep)" len cur tot rule: pop_front.induct)
  case (1 csize overlap len cur tot)
  show ?case
  proof (cases "tot > overlap \<or>
         (tot + len + (if length cur > 0 then int (length sep) else 0) > csize \<and> tot > 0)")
    case False
    have "pop_front csize overlap (int (length sep)) len cur tot = Inr (cur, tot)"
      by (subst pop_front.simps, subst if_not_P [OF False], rule refl)
    with "1.prems" show ?thesis by (intro exI [of _ 0]) simp
  next
    case True
    with "1.prems" have pos: "0 < tot" by auto
    with "1.prems" obtain d ds where cur: "cur = d # ds"
      by (cases cur) (auto simp: joined_length_def)
    let ?tot' = "tot - (int (length d) + (if length cur > 1 then int (length sep) else 0))"
    have t: "?tot' = int (joined_length sep ds)"
      using "1.prems" cur by (cases ds) (auto simp: joined_length_Cons joined_length_def)
    from "1.hyps" [OF True cur t "1.prems"(2)]
    obtain k where "pop_front csize overlap (int (length sep)) len ds ?tot' =
         Inr (drop k ds, int (joined_length sep (drop k ds)))" by blast
    then have "pop_front csize overlap (int (length sep)) len cur tot =
         Inr (drop (Suc k) cur, int (joined_length sep (drop (Suc k) cur)))"
      by (subst pop_front.simps, subst if_P [OF True]) (simp add: cur)
    then show ?thesis by blast
  qed
qed

lemma joined_length_snoc:
  "int (joined_length sep (c @ [d])) =
      int (joined_length sep c) + int (length d) +
      (if length (c @ [d]) > 1 then int (length sep) else 0)"
  by (cases c) (simp_all add: joined_length_append joined_length_Cons, simp_all add: joined_length_def)

lemma merge_step_unfold:
  "merge_step csize overlap strip_ws sep d (docs, cur, tot) =
     (case (if tot + int (length d) + (if length cur > 0 then int (length sep) else 0) > csize \<and> length cur > 0
                 then (case pop_front csize overlap (int (length sep)) (int (length d)) cur tot of
                         Inl e \<Rightarrow> Inl e
                       | Inr (current_doc', tot') \<Rightarrow>
                           Inr (case join_docs strip_ws cur sep of
                                  None \<Rightarrow> docs
                                | Some doc \<Rightarrow> docs @ [doc], current_doc', tot'))
                 else Inr (docs, cur, tot)) of
             Inl e \<Rightarrow> Inl e
           | Inr (docs1, current_doc1, tot1) \<Rightarrow>
               Inr (docs1, current_doc1 @ [d],
                    tot1 + int (length d) + (if length (current_doc1 @ [d]) > 1 then int (length sep) else 0)))"
  unfolding merge_step_def Let_def by (simp only: prod.case)

lemma merge_step_keep:
  assumes "\<not> (tot + int (length d) + (if length cur > 0 then int (length sep) else 0) > csize \<and> length cur > 0)"
  shows "merge_step csize overlap strip_ws sep d (docs, cur, tot) =
     Inr (docs, cur @ [d],
          tot + int (length d) + (if length (cur @ [d]) > 1 then int (length sep) else 0))"
  unfolding merge_step_unfold if_not_P [OF assms] by (simp only: sum.case prod.case)

lemma merge_step_pop:
  assumes "tot + int (length d) + (if length cur > 0 then int (length sep) else 0) > csize \<and> length cur > 0"
    and "pop_front csize overlap (int (length sep)) (int (length d)) cur tot = Inr (cur', tot')"
  shows "merge_step csize overlap strip_ws sep d (docs, cur, tot) =
     Inr (case join_docs strip_ws cur sep of None \<Rightarrow> docs | Some doc \<Rightarrow> docs @ [doc],
          cur' @ [d],
          tot' + int (length d) + (if length (cur' @ [d]) > 1 then int (length sep) else 0))"
  unfolding merge_step_unfold if_P [OF assms(1)] assms(2) by (simp only: sum.case prod.case)

lemma merge_step_total:
  assumes "tot = int (joined_length sep cur)" and "0 \<le> overlap"
    and "\<forall>x \<in> set docs. length x \<le> L" and "joined_length sep (cur @ d # rest) \<le> L"
  shows "\<exists>docs' cur'. merge_step csize overlap strip_ws sep d (docs, cur, tot) =
           Inr (docs', cur', int (joined_length sep cur')) \<and>
         (\<forall>x \<in> set docs'. length x \<le> L) \<and> joined_length sep (cur' @ rest) \<le> L"
proof (cases "tot + int (length d) + (if length cur > 0 then int (length sep) else 0) > csize \<and> length cur > 0")
  case False
  have e: "tot + int (length d) + (if length (cur @ [d]) > 1 then int (length sep) else 0) =
      int (joined_length sep (cur @ [d]))"
    unfolding assms(1) by (rule joined_length_snoc [symmetric])
  have "merge_step csize overlap strip_ws sep d (docs, cur, tot) =
      Inr (docs, cur @ [d], int (joined_length sep (cur @ [d])))"
    by (simp only: merge_step_keep [OF False] e)
  moreover have "joined_length sep ((cur @ [d]) @ rest) \<le> L"
    using assms(4) by simp
  ultimately show ?thesis using assms(3) by blast
next
  case True
  obtain k where p: "pop_front csize overlap (int (length sep)) (int (length d)) cur tot =
       Inr (drop k cur, int (joined_length sep (drop k cur)))"
    using pop_front_total [OF assms(1,2)] by blast
  let ?docs' = "case join_docs strip_ws cur sep of None \<Rightarrow> docs | Some doc \<Rightarrow> docs @ [doc]"
  have "joined_length sep cur \<le> L"
    using assms(4) joined_length_mono(1) [of sep cur "d # rest"] by simp
  then have d: "\<forall>x \<in> set ?docs'. length x \<le> L"
    using assms(3) by (auto split: option.splits dest!: join_docs_length)
  have "take k cur @ ((drop k cur @ [d]) @ rest) = cur @ d # rest"
    by (simp flip: append_assoc)
  then have "joined_length sep ((drop k cur @ [d]) @ rest) \<le> joined_length sep (cur @ d # rest)"
    using joined_length_mono(2) [of sep "(drop k cur @ [d]) @ rest" "take k cur"] by (simp only:)
  with assms(4) have r: "joined_length sep ((drop k cur @ [d]) @ rest) \<le> L" by simp
  have "merge_step csize overlap strip_ws sep d (docs, cur, tot) =
      Inr (?docs', drop k cur @ [d], int (joined_length sep (drop k cur @ [d])))"
    by (simp only: merge_step_pop [OF True p] joined_length_snoc [of sep "drop k cur" d, symmetric])
  with d r show ?thesis by blast
qed

lemma merge_loop_total:
  "tot = int (joined_length sep cur) \<Longrightarrow> 0 \<le> overlap \<Longrightarrow>
   \<forall>x \<in> set docs. length x \<le> L \<Longrightarrow> joined_length sep (cur @ splits) \<le> L \<Longrightarrow>
   \<exists>docs' cur' tot'. merge_loop csize overlap strip_ws sep splits (docs, cur, tot) =
       Inr (docs', cur', tot') \<and>
     (\<forall>x \<in> set docs'. length x \<le> L) \<and> joined_length sep cur' \<le> L"
proof (induction splits arbitrary: docs cur tot)
  case Nil
  then show ?case by simp
next
  case (Cons d splits)
  obtain docs1 cur1 where s: "merge_step csize overlap strip_ws sep d (docs, cur, tot) =
           Inr (docs1, cur1, int (joined_length sep cur1))"
      "\<forall>x \<in> set docs1. length x \<le> L" "joined_length sep (cur1 @ splits) \<le> L"
    using merge_step_total [OF Cons.prems(1,2,3,4)] by blast
  from Cons.IH [OF refl Cons.prems(2) s(2,3)] s(1) show ?case by simp
qed

lemma merge_splits_total:
  assumes "0 \<le> overlap"
  shows "\<exists>chunks. merge_splits csize overlap strip_ws splits sep = Inr chunks \<and>
         (\<forall>c \<in> set chunks. length c \<le> joined_length sep splits)"
proof -
  obtain docs' cur' tot' where m: "merge_loop csize overlap strip_ws sep splits ([], [], 0) =
       Inr (docs', cur', tot')"
      "\<forall>x \<in> set docs'. length x \<le> joined_length sep splits"
      "joined_length sep cur' \<le> joined_length sep splits"
    using merge_loop_total [of 0 sep "[]" overlap "[]" "joined_length sep splits" splits csize strip_ws]
      assms
    by (auto simp: joined_length_def)
  then show ?thesis
    by (auto simp: merge_splits_def split: option.splits dest!: join_docs_length)
qed

lemma startswith_length: "startswith s p \<Longrightarrow> length p \<le> length s"
  by (induction s p rule: startswith.induct) auto

lemma re_split_length:
  "re_split sep acc s \<noteq> [] \<and> joined_length sep (re_split sep acc s) = length acc + length s"
proof (induction sep acc s rule: re_split.induct)
  case (1 sep acc)
  then show ?case by (simp add: joined_length_def)
next
  case (2 sep acc c cs)
  show ?case
  proof (cases "sep \<noteq> [] \<and> startswith (c # cs) sep")
    case True
    then have "length sep \<le> length (c # cs)" by (blast dest: startswith_length)
    with True "2.IH"(1) show ?thesis
      by (simp add: joined_length_Cons)
  next
    case False
    with "2.IH"(2) show ?thesis by auto
  qed
qed

lemma joined_length_chars: "joined_length [] (map (\<lambda>c. [c]) s) = length s"
  by (induction s) (simp_all add: joined_length_def)

lemma split_text_with_regex_length:
  "joined_length sep (split_text_with_regex s sep) \<le> length s"
proof (cases "sep = []")
  case True
  with joined_length_chars [of s]
    joined_length_filter [of "[]" "\<lambda>s. s \<noteq> []" "map (\<lambda>c. [c]) s"]
  show ?thesis by (simp add: split_text_with_regex_def)
next
  case False
  with re_split_length [of sep "[]" s]
    joined_length_filter [of sep "\<lambda>s. s \<noteq> []" "re_split sep [] s"]
  show ?thesis by (simp add: split_text_with_regex_def)
qed

lemma CharacterTextSplitter_total:
  assumes "0 \<le> overlap" and "overlap \<le> csize"
  shows "\<exists>sp. CharacterTextSplitter overlap csize sep strip_ws = Inr sp \<and>
          (\<forall>s. \<exists>chunks. sp s = Inr chunks \<and> (\<forall>c \<in> set chunks. length c \<le> length s))"
proof -
  let ?sp = "\<lambda>s. merge_splits csize overlap strip_ws (split_text_with_regex s sep) sep"
  have "\<exists>chunks. ?sp s = Inr chunks \<and> (\<forall>c \<in> set chunks. length c \<le> length s)" for s
    using merge_splits_total [OF assms(1), of csize strip_ws "split_text_with_regex s sep" sep]
      split_text_with_regex_length [of sep s]
    by fastforce
  with assms(2) show ?thesis
    by (simp add: CharacterTextSplitter_def)
qed

lemma split_documents_total:
  "\<forall>s. \<exists>cs. sp s = Inr cs \<Longrightarrow> \<exists>ds. split_documents sp docs = Inr ds"
proof (induction docs)
  case Nil
  then show ?case by simp
next
  case (Cons d docs)
  then obtain cs ds where "sp (page_content d) = Inr cs" "split_documents sp docs = Inr ds"
    by blast
  then show ?case by simp
qed

section \<open>Chunks below the minimum size are dropped\<close>

lemma split_documents_append:
  "split_documents sp (xs @ ys) =
     (case split_documents sp xs of
        Inl e \<Rightarrow> Inl e
      | Inr a \<Rightarrow> (case split_documents sp ys of Inl e \<Rightarrow> Inl e | Inr b \<Rightarrow> Inr (a @ b)))"
  by (induction xs) (auto split: sum.splits)

lemma split_text_chunks:
  "split_text api self = (Inr chunks, self') \<Longrightarrow> c \<in> set chunks \<Longrightarrow>
   min_chunk_size self \<le> int (length (d_text c))"
  by (auto simp: split_text_def docs_to_data_def Let_def split: sum.splits)

text \<open>A document all of whose chunks are below the minimum size changes nothing.\<close>

lemma split_text_without_short:
  assumes "make_splitter api self = Inr splitter" and "data_inputs self = pre @ d # post"
    and "splitter (d_text d) = Inr cs" and "\<forall>c \<in> set cs. length c \<le> length (d_text d)"
    and "int (length (d_text d)) < min_chunk_size self"
  shows "fst (split_text api self) = fst (split_text api (self\<lparr>data_inputs := pre @ post\<rparr>))"
proof -
  let ?self' = "self\<lparr>data_inputs := pre @ post\<rparr>"
  let ?keep = "\<lambda>doc. min_chunk_size self \<le> int (length (page_content doc))"
  have m: "make_splitter api ?self' = Inr splitter"
    using assms(1) by (simp add: make_splitter_def)
  have one: "split_documents splitter [to_lc_document d] =
      Inr (map (\<lambda>c. \<lparr>page_content = c, metadata = d_data d\<rparr>) cs)"
    using assms(3) by (simp add: to_lc_document_def)
  have drop: "filter ?keep (map (\<lambda>c. \<lparr>page_content = c, metadata = d_data d\<rparr>) cs) = []"
    using assms(4,5) by (auto simp: filter_empty_conv)
  have with_d: "split_documents splitter (map to_lc_document (pre @ d # post)) =
      (case split_documents splitter (map to_lc_document pre) of
         Inl e \<Rightarrow> Inl e
       | Inr a \<Rightarrow> (case split_documents splitter (map to_lc_document post) of
                     Inl e \<Rightarrow> Inl e
                   | Inr b \<Rightarrow> Inr (a @ map (\<lambda>c. \<lparr>page_content = c, metadata = d_data d\<rparr>) cs @ b)))"
    using split_documents_append [of splitter "map to_lc_document pre" "to_lc_document d # map to_lc_document post"]
      split_documents_append [of splitter "[to_lc_document d]" "map to_lc_document post"] one
    by (auto split: sum.splits)
  have without_d: "split_documents splitter (map to_lc_document (pre @ post)) =
      (case split_documents splitter (map to_lc_document pre) of
         Inl e \<Rightarrow> Inl e
       | Inr a \<Rightarrow> (case split_documents splitter (map to_lc_document post) of
                     Inl e \<Rightarrow> Inl e
                   | Inr b \<Rightarrow> Inr (a @ b)))"
    using split_documents_append [of splitter "map to_lc_document pre" "map to_lc_document post"]
    by simp
  show ?thesis
    using assms(1,2) m with_d without_d drop
    by (auto simp: split_text_def Let_def split: sum.splits)
qed

text \<open>
  With \<open>CharacterTextSplitter\<close> as the splitter and \<open>0 \<le> chunk_overlap \<le> chunk_size\<close>,
  \<open>split_text\<close> raises nothing, and a document shorter than the minimum changes nothing.
\<close>

lemma split_text_with_CharacterTextSplitter:
  assumes "text_splitter api = CharacterTextSplitter" and "0 \<le> chunk_overlap self"
    and "chunk_overlap self \<le> chunk_size self"
  shows "\<exists>chunks. fst (split_text api self) = Inr chunks"
    and "data_inputs self = pre @ d # post \<Longrightarrow> int (length (d_text d)) < min_chunk_size self \<Longrightarrow>
         fst (split_text api self) = fst (split_text api (self\<lparr>data_inputs := pre @ post\<rparr>))"
proof -
  obtain sp where sp: "make_splitter api self = Inr sp"
      "\<forall>s. \<exists>chunks. sp s = Inr chunks \<and> (\<forall>c \<in> set chunks. length c \<le> length s)"
    using CharacterTextSplitter_total
      [of "chunk_overlap self" "chunk_size self" "unescape (charref_sub api) (separator self)"
          "strip_whitespace self"] assms
    by (auto simp: make_splitter_def)
  then have "\<forall>s. \<exists>cs. sp s = Inr cs" by blast
  then obtain ds where "split_documents sp (map to_lc_document (data_inputs self)) = Inr ds"
    using split_documents_total by blast
  with sp(1) show "\<exists>chunks. fst (split_text api self) = Inr chunks"
    by (simp add: split_text_def Let_def)
  show "fst (split_text api self) = fst (split_text api (self\<lparr>data_inputs := pre @ post\<rparr>))"
    if "data_inputs self = pre @ d # post" and "int (length (d_text d)) < min_chunk_size self"
  proof -
    obtain cs where "sp (d_text d) = Inr cs" "\<forall>c \<in> set cs. length c \<le> length (d_text d)"
      using sp(2) by blast
    with sp(1) that show ?thesis
      by (intro split_text_without_short [of api self sp pre d post cs]) auto
  qed
qed

text \<open>
  Claim C4. Every chunk \<open>split_text\<close> returns has at least \<open>min_chunk_size\<close>
  characters. Dropping raises nothing: whenever the splitter is built and splits the
  documents, \<open>split_text\<close> returns the splitter's chunks of at least that length, in
  order. And a document whose cleaned text is shorter than \<open>min_chunk_size\<close> contributes
  no chunk, the result being the same as without the document: for any splitter that cuts
  the text into chunks no longer than the text, and so for \<open>CharacterTextSplitter\<close> with
  \<open>0 \<le> chunk_overlap \<le> chunk_size\<close>, with which \<open>split_text\<close> raises nothing at all.
\<close>

theorem split_text_min_chunk_size:
  "(split_text api self = (Inr chunks, self') \<longrightarrow>
      (\<forall>c \<in> set chunks. min_chunk_size self \<le> int (length (d_text c)))) \<and>
   (make_splitter api self = Inr splitter \<and>
    split_documents splitter (map to_lc_document (data_inputs self)) = Inr docs \<longrightarrow>
      fst (split_text api self) =
        Inr (docs_to_data (filter (\<lambda>doc. min_chunk_size self \<le> int (length (page_content doc))) docs))) \<and>
   (make_splitter api self = Inr splitter \<and> data_inputs self = pre @ d # post \<and>
    splitter (d_text d) = Inr cs \<and> (\<forall>c \<in> set cs. length c \<le> length (d_text d)) \<and>
    int (length (d_text d)) < min_chunk_size self \<longrightarrow>
      fst (split_text api self) = fst (split_text api (self\<lparr>data_inputs := pre @ post\<rparr>))) \<and>
   (text_splitter api = CharacterTextSplitter \<and> 0 \<le> chunk_overlap self \<and>
    chunk_overlap self \<le> chunk_size self \<longrightarrow>
      (\<exists>kept. fst (split_text api self) = Inr kept) \<and>
      (data_inputs self = pre @ d # post \<and> int (length (d_text d)) < min_chunk_size self \<longrightarrow>
         fst (split_text api self) = fst (split_text api (self\<lparr>data_inputs := pre @ post\<rparr>))))"
proof (intro conjI impI)
  assume "split_text api self = (Inr chunks, self')"
  then show "\<forall>c \<in> set chunks. min_chunk_size self \<le> int (length (d_text c))"
    by (blast dest: split_text_chunks)
next
  assume "make_splitter api self = Inr splitter \<and>
    split_documents splitter (map to_lc_document (data_inputs self)) = Inr docs"
  then show "fst (split_text api self) =
        Inr (docs_to_data (filter (\<lambda>doc. min_chunk_size self \<le> int (length (page_content doc))) docs))"
    by (simp add: split_text_def Let_def)
next
  assume h: "make_splitter api self = Inr splitter \<and> data_inputs self = pre @ d # post \<and>
    splitter (d_text d) = Inr cs \<and> (\<forall>c \<in> set cs. length c \<le> length (d_text d)) \<and>
    int (length (d_text d)) < min_chunk_size self"
  then show "fst (split_text api self) = fst (split_text api (self\<lparr>data_inputs := pre @ post\<rparr>))"
    by (intro split_text_without_short [of api self splitter pre d post cs]) auto
next
  assume "text_splitter api = CharacterTextSplitter \<and> 0 \<le> chunk_overlap self \<and>
    chunk_overlap self \<le> chunk_size self"
  then show "\<exists>kept. fst (split_text api self) = Inr kept"
    by (intro split_text_with_CharacterTextSplitter(1)) auto
next
  assume "text_splitter api = CharacterTextSplitter \<and> 0 \<le> chunk_overlap self \<and>
    chunk_overlap self \<le> chunk_size self"
    and "data_inputs self = pre @ d # post \<and> int (length (d_text d)) < min_chunk_size self"
  then show "fst (split_text api self) = fst (split_text api (self\<lparr>data_inputs := pre @ post\<rparr>))"
    by (intro split_text_with_CharacterTextSplitter(2)) auto
qed

text \<open>
  Of three documents the middle one has five characters, with \<open>min_chunk_size = 10\<close>:
  the chunks are those of the two others. With the default sizes, the text \<open>short\<close>
  alone gives no chunk.
\<close>

theorem split_text_min_chunk_size_witness:
  "fst (split_text text_api0 processor1) =
     Inr [\<lparr>d_text = ''The travel desk books every flight in economy class.'',
            d_data = [(''tenant_id'', ''x'')]\<rparr>,
          \<lparr>d_text = ''The travel desk books every flight in economy class.'',
            d_data = [(''tenant_id'', ''x'')]\<rparr>] \<and>
   fst (split_text text_api0 processor1) =
     fst (split_text text_api0 (processor1\<lparr>data_inputs := [long_doc] @ [long_doc]\<rparr>)) \<and>
   fst (split_text text_api0 (processor0\<lparr>chunk_size := 1000, chunk_overlap := 200,
          min_chunk_size := 100, data_inputs := [short_doc]\<rparr>)) = Inr []"
proof -
  let ?sp = "\<lambda>s. merge_splits 40 10 True (split_text_with_regex s ''\<newline>\<newline>'') ''\<newline>\<newline>''"
  have m: "make_splitter text_api0 processor1 = Inr ?sp"
    by (simp add: make_splitter_def text_api0_def processor1_def processor0_def
        CharacterTextSplitter_def unescape_def)
  have i: "data_inputs processor1 = [long_doc] @ short_doc # [long_doc]"
    by (simp add: processor1_def)
  have c: "?sp (d_text short_doc) = Inr [''short'']"
    by code_simp
  have b: "\<forall>c \<in> set [''short'']. length c \<le> length (d_text short_doc)"
    by (simp add: short_doc_def)
  have l: "int (length (d_text short_doc)) < min_chunk_size processor1"
    by (simp add: short_doc_def processor1_def)
  have o: "text_splitter text_api0 = CharacterTextSplitter \<and> 0 \<le> chunk_overlap processor1 \<and>
      chunk_overlap processor1 \<le> chunk_size processor1"
    by (simp add: text_api0_def processor1_def processor0_def)
  have r: "fst (split_text text_api0 processor1) =
     Inr [\<lparr>d_text = ''The travel desk books every flight in economy class.'',
            d_data = [(''tenant_id'', ''x'')]\<rparr>,
          \<lparr>d_text = ''The travel desk books every flight in economy class.'',
            d_data = [(''tenant_id'', ''x'')]\<rparr>]"
    by code_simp
  have z: "fst (split_text text_api0 (processor0\<lparr>chunk_size := 1000, chunk_overlap := 200,
          min_chunk_size := 100, data_inputs := [short_doc]\<rparr>)) = Inr []"
    by code_simp
  have "fst (split_text text_api0 processor1) =
     fst (split_text text_api0 (processor1\<lparr>data_inputs := [long_doc] @ [long_doc]\<rparr>))"
    using split_text_min_chunk_size
      [of text_api0 processor1 "[]" processor1 ?sp "[]"
          "[long_doc]" short_doc "[long_doc]" "[''short'']"]
      m i c b l o
    by blast
  with r z show ?thesis by blast
qed

section \<open>Chunks above the chunk size\<close>

text \<open>
  Claim C3, with \<open>chunk_size = 10\<close> and \<open>chunk_overlap = 2\<close>: the text of twenty
  characters without separator comes back as one chunk of twenty characters, twice the
  chunk size, and the two chunks of the second text end in \<open>bb\<close> and start with \<open>cc\<close>:
  they share nothing.
\<close>

theorem split_text_oversized_chunk:
  "fst (split_text text_api0 processor2) =
     Inr [\<lparr>d_text = ''aaaaaaaaaaaaaaaaaaaa'', d_data = [(''source'', ''one.pdf'')]\<rparr>,
          \<lparr>d_text = ''aaaa\<newline>\<newline>bbbb'', d_data = [(''source'', ''two.pdf'')]\<rparr>,
          \<lparr>d_text = ''cccc'', d_data = [(''source'', ''two.pdf'')]\<rparr>] \<and>
   chunk_size processor2 < int (length ''aaaaaaaaaaaaaaaaaaaa'')"
  by code_simp

end
